theory Spec2Isabelle
  imports Main
begin

section \<open>Errors and outcomes\<close>

text \<open>
  Go errors are values. \<open>Err\<close> is an error of the operating system or of a library
  (named by its message), \<open>Wrap\<close> is \<^verbatim>\<open>errors.Wrap(err, msg)\<close>, the two status errors are
  the \<^verbatim>\<open>fmt.Errorf\<close> calls of \<^verbatim>\<open>SessionClient.get\<close>, and \<open>PageErr\<close> is
  \<^verbatim>\<open>fmt.Errorf("... page %d: %w", page, err)\<close> of \<^verbatim>\<open>app.poll\<close>.
\<close>

datatype error =
    Err string
  | Wrap error string
  | UnexpectedStatus int
  | UnexpectedStatusBody int string
  | PageErr string int error

text \<open>
  A call either returns, never returns (it waits on a semaphore that cannot be acquired),
  or panics (a nil dereference).
\<close>

datatype 'a outcome = Returns 'a | Blocks | Panics

section \<open>The authenticated fetcher (fanbox/session.go)\<close>

text \<open>
  An \<^verbatim>\<open>io.ReadCloser\<close>: the bytes it still delivers, the error that ends the stream
  (\<open>None\<close> is a clean EOF), and whether it was closed.
\<close>

record readCloser =
  pending :: string
  fault :: "error option"
  closed :: bool

text \<open>\<^verbatim>\<open>ioutil.ReadAll\<close>: the bytes read, the error, and the drained reader.\<close>

definition ReadAll :: "readCloser \<Rightarrow> string \<times> error option \<times> readCloser" where
  "ReadAll rc = (pending rc, fault rc, rc\<lparr>pending := []\<rparr>)"

definition Close :: "readCloser \<Rightarrow> readCloser" where
  "Close rc = rc\<lparr>closed := True\<rparr>"

text \<open>
  What one \<^verbatim>\<open>sc.Do(request)\<close> gives: a transport error, or a response with its status
  code and body.
\<close>

datatype attempt = TransportError error | Response int readCloser

text \<open>
  The network is an input of the model: whether \<^verbatim>\<open>http.NewRequest\<close> accepts the URL, and
  what the k-th execution of the request for that URL yields (k counts from 0 within one
  call of \<^verbatim>\<open>get\<close>).
\<close>

record network =
  validURL :: "string \<Rightarrow> bool"
  exchange :: "string \<Rightarrow> nat \<Rightarrow> attempt"

record SessionClient =
  Retries :: int

text \<open>
  The named results \<^verbatim>\<open>body\<close> and \<^verbatim>\<open>err\<close> of \<^verbatim>\<open>get\<close>, with the number of
  requests executed so far.
\<close>

record getState =
  body :: "readCloser option"
  err :: "error option"
  attempts :: nat

text \<open>
  The loop \<^verbatim>\<open>for i := -1; i < sc.Retries; i++\<close>. The condition of the status check is
  written as the source has it, \<^verbatim>\<open>true || r.StatusCode < 200 || r.StatusCode > 299\<close>.
\<close>

function get_loop :: "SessionClient \<Rightarrow> (nat \<Rightarrow> attempt) \<Rightarrow> int \<Rightarrow> getState \<Rightarrow> getState" where
  "get_loop sc do i st =
     (if i < Retries sc then
        (case do (attempts st) of
           TransportError e \<Rightarrow>
             get_loop sc do (i + 1)
               (st\<lparr>err := Some (Wrap e ''failed to do request''), attempts := Suc (attempts st)\<rparr>)
         | Response StatusCode rBody \<Rightarrow>
             (if True \<or> StatusCode < 200 \<or> StatusCode > 299 then
                (case ReadAll rBody of (b, rerr, drained) \<Rightarrow>
                   (case rerr of
                      Some _ \<Rightarrow>
                        get_loop sc do (i + 1)
                          \<lparr>body = Some (Close drained),
                           err = Some (UnexpectedStatus StatusCode),
                           attempts = Suc (attempts st)\<rparr>
                    | None \<Rightarrow>
                        get_loop sc do (i + 1)
                          \<lparr>body = Some (Close drained),
                           err = Some (UnexpectedStatusBody StatusCode b),
                           attempts = Suc (attempts st)\<rparr>))
              else \<lparr>body = Some rBody, err = None, attempts = Suc (attempts st)\<rparr>))
      else st)"
  by pat_completeness auto
termination
  by (relation "measure (\<lambda>(sc, do, i, st). nat (Retries sc - i))") auto

declare get_loop.simps [simp del]

definition get :: "SessionClient \<Rightarrow> network \<Rightarrow> string \<Rightarrow> getState" where
  "get sc net url =
     (if \<not> validURL net url
      then \<lparr>body = None, err = Some (Wrap (Err ''invalid URL'') ''failed to create request''),
            attempts = 0\<rparr>
      else get_loop sc (exchange net url) (- 1) \<lparr>body = None, err = None, attempts = 0\<rparr>)"

text \<open>\<^verbatim>\<open>Download\<close> returns the two results of \<^verbatim>\<open>get\<close>.\<close>

definition Download :: "SessionClient \<Rightarrow> network \<Rightarrow> string \<Rightarrow> readCloser option \<times> error option" where
  "Download sc net url = (let st = get sc net url in (body st, err st))"

text \<open>
  \<^verbatim>\<open>Get\<close> decodes the body as JSON; the decoder is an input of the model. A nil reader with
  a nil error (which \<^verbatim>\<open>get\<close> returns when the loop body never runs) makes the decoder
  dereference nil.
\<close>

definition Get :: "SessionClient \<Rightarrow> network \<Rightarrow> (readCloser \<Rightarrow> error + 'v) \<Rightarrow> string \<Rightarrow>
    (error + 'v) outcome" where
  "Get sc net decode url =
     (let st = get sc net url in
      case err st of
        Some e \<Rightarrow> Returns (Inl e)
      | None \<Rightarrow>
          (case body st of
             None \<Rightarrow> Panics
           | Some r \<Rightarrow>
               (case decode r of
                  Inl e \<Rightarrow> Returns (Inl (Wrap e ''failed to decode JSON''))
                | Inr v \<Rightarrow> Returns (Inr v))))"

section \<open>The content model (fanbox/fanbox.go)\<close>

text \<open>
  Of each struct the model keeps the fields the program reads. \<open>DateTime\<close> is a point in
  time; how it prints is a fact of the platform (below).
\<close>

type_synonym DateTime = int
type_synonym ItemType = string

record ItemBase =
  ID :: string
  Title :: string
  Type :: ItemType
  PublishedDateTime :: DateTime
  CreatorID :: string

definition ItemTypeArticle :: ItemType where "ItemTypeArticle = ''article''"
definition ItemTypeImage :: ItemType where "ItemTypeImage = ''image''"
definition ItemTypeFile :: ItemType where "ItemTypeFile = ''file''"

record Image =
  OriginalURL :: string

record File =
  Extension :: string
  URL :: string

text \<open>
  The implementations of the interface \<^verbatim>\<open>ItemBody\<close>. The blocks of an article are never
  read by the program.
\<close>

datatype ItemBody =
    ArticleBody
  | ImageBody string "Image list"
  | FileBody "File list" string

text \<open>\<^verbatim>\<open>Item\<close> embeds \<^verbatim>\<open>ItemBase\<close>; a nil \<^verbatim>\<open>Body\<close> is \<open>None\<close>.\<close>

record Item = ItemBase +
  Body :: "ItemBody option"

record PageBody =
  Items :: "Item list"
  NextURL :: string

record Page =
  PBody :: PageBody

text \<open>The embedded \<^verbatim>\<open>ItemBase\<close> of an item, and an item made of a base and a body.\<close>

definition ItemBase_of :: "Item \<Rightarrow> ItemBase" where
  "ItemBase_of i =
     \<lparr>ID = ID i, Title = Title i, Type = Type i, PublishedDateTime = PublishedDateTime i,
      CreatorID = CreatorID i\<rparr>"

definition Item_of :: "ItemBase \<Rightarrow> ItemBody option \<Rightarrow> Item" where
  "Item_of b bd =
     \<lparr>ID = ID b, Title = Title b, Type = Type b, PublishedDateTime = PublishedDateTime b,
      CreatorID = CreatorID b, Body = bd\<rparr>"

text \<open>
  \<^verbatim>\<open>Item.UnmarshalJSON\<close>. The two calls of \<^verbatim>\<open>json.Unmarshal\<close> are inputs. The first
  decodes into the receiver's own \<^verbatim>\<open>ItemBase\<close>: for the base the receiver holds it gives
  the error, if any, and the base it leaves (on an error, the base as far as it was
  overwritten). The second decodes into a container holding the given empty body (JSON null
  leaves the interface nil). The receiver is updated in place and returned with the error.
\<close>

definition Item_UnmarshalJSON ::
    "(ItemBase \<Rightarrow> error option \<times> ItemBase) \<Rightarrow> (ItemBody \<Rightarrow> error + ItemBody option) \<Rightarrow> Item \<Rightarrow>
     error option \<times> Item" where
  "Item_UnmarshalJSON unmarshalBase unmarshalBody i =
     (case unmarshalBase (ItemBase_of i) of
        (Some e, b) \<Rightarrow> (Some (Wrap e ''failed to unmarshal item base''), Item_of b (Item.Body i))
      | (None, b) \<Rightarrow>
          (let container =
                 (if Type b = ItemTypeArticle then Some ArticleBody
                  else if Type b = ItemTypeImage then Some (ImageBody [] [])
                  else if Type b = ItemTypeFile then Some (FileBody [] [])
                  else None)
           in case container of
                None \<Rightarrow> (None, Item_of b (Item.Body i))
              | Some fresh \<Rightarrow>
                  (case unmarshalBody fresh of
                     Inl e \<Rightarrow>
                       (Some (Wrap e ''failed to unmarshal into item of exact type''),
                        Item_of b (Item.Body i))
                   | Inr bd \<Rightarrow> (None, Item_of b bd))))"

definition OriginURL :: string where "OriginURL = ''https://www.fanbox.cc''"
definition APIURL :: string where "APIURL = ''https://api.fanbox.cc''"

section \<open>Path sanitising (main.go)\<close>

text \<open>
  \<^verbatim>\<open>strings.NewReplacer\<close> with only one-byte old strings works byte by byte: each byte that
  has a replacement is replaced by it (the first pair for that byte wins), every other byte
  is copied.
\<close>

fun replacement :: "(string \<times> string) list \<Rightarrow> char \<Rightarrow> string option" where
  "replacement [] c = None"
| "replacement ((old, new) # pairs) c = (if old = [c] then Some new else replacement pairs c)"

fun Replace :: "(string \<times> string) list \<Rightarrow> string \<Rightarrow> string" where
  "Replace pairs [] = []"
| "Replace pairs (c # cs) =
     (case replacement pairs c of Some new \<Rightarrow> new | None \<Rightarrow> [c]) @ Replace pairs cs"

text \<open>
  The replacement of the slash, byte for byte as in the source file: a space, the seven
  bytes C3 A2 CB 86 E2 80 A2, a space.
\<close>

definition slashReplacement :: string where
  "slashReplacement =
     [CHR '' '', CHR 0xC3, CHR 0xA2, CHR 0xCB, CHR 0x86, CHR 0xE2, CHR 0x80, CHR 0xA2, CHR '' '']"

definition sanitizer :: "(string \<times> string) list" where
  "sanitizer = [(''/'', slashReplacement), ([CHR 0x00], [])]"

definition sanitizePath :: "string \<Rightarrow> string" where
  "sanitizePath part = Replace sanitizer part"

section \<open>Comma words (the allow-list of file extensions)\<close>

fun Include :: "string list \<Rightarrow> string \<Rightarrow> bool" where
  "Include [] word = False"
| "Include (cw # w) word = (if cw = word then True else Include w word)"

section \<open>Paths and the filesystem (path/filepath, os, io)\<close>

text \<open>
  Paths are strings with the separator \<open>/\<close>. \<open>Clean\<close>, \<open>Join\<close> and \<open>Base\<close> follow the rules
  documented for \<^verbatim>\<open>path/filepath\<close>: empty elements are ignored, \<open>.\<close> is dropped, \<open>..\<close> removes
  the element before it (and is dropped at the root), the empty result is \<open>.\<close>.
\<close>

fun splitSlash :: "string \<Rightarrow> string list" where
  "splitSlash [] = [[]]"
| "splitSlash (c # cs) =
     (if c = CHR ''/'' then [] # splitSlash cs
      else (case splitSlash cs of [] \<Rightarrow> [[c]] | x # xs \<Rightarrow> (c # x) # xs))"

fun joinSlash :: "string list \<Rightarrow> string" where
  "joinSlash [] = []"
| "joinSlash [x] = x"
| "joinSlash (x # y # ys) = x @ ''/'' @ joinSlash (y # ys)"

fun cleanComps :: "bool \<Rightarrow> string list \<Rightarrow> string list \<Rightarrow> string list" where
  "cleanComps rooted out [] = rev out"
| "cleanComps rooted out (c # cs) =
     (if c = [] \<or> c = ''.'' then cleanComps rooted out cs
      else if c = ''..'' then
        (case out of
           [] \<Rightarrow> if rooted then cleanComps rooted [] cs else cleanComps rooted [''..''] cs
         | t # rest \<Rightarrow>
             if t = ''..'' then cleanComps rooted (c # out) cs
             else cleanComps rooted rest cs)
      else cleanComps rooted (c # out) cs)"

definition Clean :: "string \<Rightarrow> string" where
  "Clean p =
     (case p of
        [] \<Rightarrow> ''.''
      | c # _ \<Rightarrow>
          (let rooted = (c = CHR ''/'');
               s = (if rooted then ''/'' else []) @ joinSlash (cleanComps rooted [] (splitSlash p))
           in if s = [] then ''.'' else s))"

definition Join :: "string list \<Rightarrow> string" where
  "Join elem =
     (let es = filter (\<lambda>e. e \<noteq> []) elem
      in if es = [] then [] else Clean (joinSlash es))"

definition Base :: "string \<Rightarrow> string" where
  "Base p =
     (if p = [] then ''.''
      else (let q = rev (dropWhile (\<lambda>c. c = CHR ''/'') (rev p))
            in if q = [] then ''/''
               else (case rev (splitSlash q) of [] \<Rightarrow> ''.'' | x # _ \<Rightarrow> x)))"

text \<open>The proper ancestors of a cleaned path, nearest first; the root is left out.\<close>

definition parents :: "string \<Rightarrow> string list" where
  "parents p =
     (let cs = splitSlash p
      in filter (\<lambda>q. q \<noteq> []) (map (\<lambda>k. joinSlash (take k cs)) (rev [1..<length cs])))"

datatype node = FileNode string | DirNode

text \<open>
  The state outside the program: the filesystem, and how many temporary names have been
  drawn (the clock and the random generator move with every draw).
\<close>

record world =
  nodes :: "string \<rightharpoonup> node"
  calls :: nat

text \<open>The root, the working directory and its parent always exist.\<close>

definition node_at :: "world \<Rightarrow> string \<Rightarrow> node option" where
  "node_at w p = (if p = ''/'' \<or> p = ''.'' \<or> p = ''..'' then Some DirNode else nodes w p)"

text \<open>\<^verbatim>\<open>os.Stat\<close>, as the program uses it: whether the error is nil.\<close>

definition os_Stat :: "world \<Rightarrow> string \<Rightarrow> bool" where
  "os_Stat w p = (node_at w p \<noteq> None)"

text \<open>
  \<^verbatim>\<open>os.MkdirAll\<close>: an existing directory is success, an existing file is an error,
  otherwise the parent is made first and then the directory.
\<close>

fun mkdirUp :: "world \<Rightarrow> string list \<Rightarrow> error + world" where
  "mkdirUp w [] = Inr w"
| "mkdirUp w (q # ups) =
     (case node_at w q of
        Some DirNode \<Rightarrow> Inr w
      | Some (FileNode _) \<Rightarrow> Inl (Err ''not a directory'')
      | None \<Rightarrow>
          (case mkdirUp w ups of
             Inl e \<Rightarrow> Inl e
           | Inr w1 \<Rightarrow> Inr (w1\<lparr>nodes := (nodes w1)(q \<mapsto> DirNode)\<rparr>)))"

definition os_MkdirAll :: "world \<Rightarrow> string \<Rightarrow> error + world" where
  "os_MkdirAll w p = mkdirUp w (p # parents p)"

definition parentIsDir :: "world \<Rightarrow> string \<Rightarrow> bool" where
  "parentIsDir w p = (case parents p of [] \<Rightarrow> True | q # _ \<Rightarrow> node_at w q = Some DirNode)"

text \<open>\<^verbatim>\<open>os.Create\<close>: creates the file or truncates it.\<close>

definition os_Create :: "world \<Rightarrow> string \<Rightarrow> error + world" where
  "os_Create w p =
     (if node_at w p = Some DirNode then Inl (Err ''is a directory'')
      else if \<not> parentIsDir w p then Inl (Err ''no such file or directory'')
      else Inr (w\<lparr>nodes := (nodes w)(p \<mapsto> FileNode [])\<rparr>))"

text \<open>
  \<^verbatim>\<open>io.Copy\<close> into the file opened at \<open>p\<close>: the bytes the reader delivers are written, and
  the reader's error, if any, is returned.
\<close>

definition io_Copy :: "world \<Rightarrow> string \<Rightarrow> readCloser \<Rightarrow> world \<times> error option" where
  "io_Copy w p r = (w\<lparr>nodes := (nodes w)(p \<mapsto> FileNode (pending r))\<rparr>, fault r)"

definition os_Remove :: "world \<Rightarrow> string \<Rightarrow> world" where
  "os_Remove w p = w\<lparr>nodes := (nodes w)(p := None)\<rparr>"

text \<open>\<^verbatim>\<open>os.Rename\<close>: replaces a file at the new path; a directory there is an error.\<close>

definition os_Rename :: "world \<Rightarrow> string \<Rightarrow> string \<Rightarrow> error + world" where
  "os_Rename w oldpath newpath =
     (case node_at w oldpath of
        None \<Rightarrow> Inl (Err ''no such file or directory'')
      | Some DirNode \<Rightarrow>
          (if node_at w newpath = None \<and> parentIsDir w newpath
           then Inr (w\<lparr>nodes := (nodes w)(oldpath := None, newpath \<mapsto> DirNode)\<rparr>)
           else Inl (Err ''file exists''))
      | Some (FileNode b) \<Rightarrow>
          (if node_at w newpath = Some DirNode then Inl (Err ''is a directory'')
           else if \<not> parentIsDir w newpath then Inl (Err ''no such file or directory'')
           else Inr (w\<lparr>nodes := (nodes w)(oldpath := None, newpath \<mapsto> FileNode b)\<rparr>)))"

section \<open>The atomic write protocol (main.go)\<close>

text \<open>
  Facts of the platform the program reads: how a date prints with the layout
  \<^verbatim>\<open>2006-01-02\<close>, \<^verbatim>\<open>url.PathEscape\<close>, and the base64 text of the k-th temporary name
  (the clock and the random number of that moment).
\<close>

record platform =
  Format_date :: "DateTime \<Rightarrow> string"
  PathEscape :: "string \<Rightarrow> string"
  tmpNames :: "nat \<Rightarrow> string"

definition tmpFilename :: "platform \<Rightarrow> world \<Rightarrow> string \<times> world" where
  "tmpFilename pf w = (''.tmp.'' @ tmpNames pf (calls w), w\<lparr>calls := Suc (calls w)\<rparr>)"

definition writeTmp :: "world \<Rightarrow> string \<Rightarrow> string \<Rightarrow> readCloser \<Rightarrow> world \<times> error option" where
  "writeTmp w dst tmp r =
     (case os_Create w tmp of
        Inl e \<Rightarrow> (w, Some (Wrap e ''failed to create tmp image file''))
      | Inr w1 \<Rightarrow>
          (case io_Copy w1 tmp r of
             (w2, Some e) \<Rightarrow>
               (os_Remove w2 tmp, Some (Wrap e ''failed to download image to tmp file''))
           | (w2, None) \<Rightarrow>
               (case os_Rename w2 tmp dst of
                  Inl e \<Rightarrow> (w2, Some (Wrap e ''failed to restore image tmp to dst''))
                | Inr w3 \<Rightarrow> (w3, None))))"

definition downloadFile :: "platform \<Rightarrow> world \<Rightarrow> string \<Rightarrow> string \<Rightarrow> readCloser \<Rightarrow> world \<times> error option" where
  "downloadFile pf w dir file r =
     (let dst = Join [dir, file]
      in case tmpFilename pf w of (tn, w1) \<Rightarrow> writeTmp w1 dst (Join [dir, tn]) r)"

definition NewReader :: "string \<Rightarrow> readCloser" where
  "NewReader text = \<lparr>pending = text, fault = None, closed = False\<rparr>"

definition writeText :: "platform \<Rightarrow> world \<Rightarrow> string \<Rightarrow> string \<Rightarrow> string \<Rightarrow> world \<times> error option" where
  "writeText pf w dir file text =
     (let dst = Join [dir, file]
      in case tmpFilename pf w of (tn, w1) \<Rightarrow>
           (if os_Stat w1 (Join [dir, file]) then (w1, None)
            else writeTmp w1 dst (Join [dir, tn]) (NewReader text)))"

section \<open>Configuration, the semaphore and the application (main.go)\<close>

record Config =
  SessionID :: string
  DestDir :: string
  MaxParallel :: int
  MaxRetries :: int
  MaxPageBehind :: int
  PollFrequency :: int
  AllowFileExts :: "string list"

text \<open>
  A weighted semaphore of \<^verbatim>\<open>golang.org/x/sync/semaphore\<close>: its size and the weight
  currently held. \<^verbatim>\<open>Acquire(ctx, 1)\<close> takes a slot when one is free and waits otherwise;
  with the background context it waits for ever when the weight asked for exceeds the size.
\<close>

record Weighted =
  sem_size :: int
  sem_cur :: int

definition NewWeighted :: "int \<Rightarrow> Weighted" where
  "NewWeighted n = \<lparr>sem_size = n, sem_cur = 0\<rparr>"

definition Acquire :: "Weighted \<Rightarrow> int \<Rightarrow> Weighted option" where
  "Acquire s n = (if sem_size s - sem_cur s \<ge> n then Some (s\<lparr>sem_cur := sem_cur s + n\<rparr>) else None)"

definition waitsForever :: "Weighted \<Rightarrow> int \<Rightarrow> bool" where
  "waitsForever s n = (n > sem_size s)"

definition Release :: "Weighted \<Rightarrow> int \<Rightarrow> Weighted" where
  "Release s n = s\<lparr>sem_cur := sem_cur s - n\<rparr>"

text \<open>\<^verbatim>\<open>app\<close> embeds \<^verbatim>\<open>Config\<close>.\<close>

record app = Config +
  session :: SessionClient
  sema :: Weighted

text \<open>The construction of the application in \<^verbatim>\<open>main\<close>, from the processed configuration.\<close>

definition newApp :: "Config \<Rightarrow> app" where
  "newApp cfg =
     \<lparr>SessionID = SessionID cfg, DestDir = DestDir cfg, MaxParallel = MaxParallel cfg,
      MaxRetries = MaxRetries cfg, MaxPageBehind = MaxPageBehind cfg,
      PollFrequency = PollFrequency cfg, AllowFileExts = AllowFileExts cfg,
      session = \<lparr>Retries = MaxRetries cfg\<rparr>,
      sema = NewWeighted (MaxRetries cfg)\<rparr>"

section \<open>The download scheduler (main.go, downloadPage)\<close>

text \<open>A dispatched download: the variables the goroutine's closure captures.\<close>

record download =
  dl_dir :: string
  dl_name :: string
  dl_oURL :: string

text \<open>
  The type switch on the body of an item: the URLs and the text of an image or file body,
  \<open>None\<close> for the default case.
\<close>

definition itemURLs :: "app \<Rightarrow> Item \<Rightarrow> (string list \<times> string) option" where
  "itemURLs c item =
     (case Item.Body item of
        Some (ImageBody text images) \<Rightarrow> Some (map OriginalURL images, text)
      | Some (FileBody files text) \<Rightarrow>
          Some (map URL (filter (\<lambda>file. Include (AllowFileExts c) (Extension file)) files), text)
      | _ \<Rightarrow> None)"

definition ItemBase_URL :: "platform \<Rightarrow> Item \<Rightarrow> string" where
  "ItemBase_URL pf i = OriginURL @ ''/@'' @ PathEscape pf (CreatorID i) @ ''/posts/'' @ ID i"

definition itemDir :: "app \<Rightarrow> platform \<Rightarrow> Item \<Rightarrow> string" where
  "itemDir c pf item =
     Join [DestDir c, sanitizePath (CreatorID item),
           Format_date pf (PublishedDateTime item) @ '': '' @ sanitizePath (Title item)]"

text \<open>
  The loop over the URLs of one item, as the driver runs it: a file that exists is counted,
  for any other a slot is acquired and a download is dispatched. The downloads run
  concurrently; here they are collected in the order of dispatch, and the lookups read the
  filesystem as the driver left it (the interleaving with completing downloads is the
  subject of the subsection below). Acquiring waits until a download in flight releases a
  slot; it never returns when the semaphore has no slot at all.
\<close>

fun urlLoop :: "app \<Rightarrow> world \<Rightarrow> string \<Rightarrow> string list \<Rightarrow> nat \<Rightarrow> download list \<Rightarrow> (nat \<times> download list) outcome" where
  "urlLoop c w dir [] fetchedItems ts = Returns (fetchedItems, ts)"
| "urlLoop c w dir (url # urls) fetchedItems ts =
     (let oURL = url; name = Base oURL
      in if os_Stat w (Join [dir, name]) then urlLoop c w dir urls (Suc fetchedItems) ts
         else if waitsForever (sema c) 1 then Blocks
         else urlLoop c w dir urls fetchedItems
                (ts @ [\<lparr>dl_dir = dir, dl_name = name, dl_oURL = oURL\<rparr>]))"

text \<open>
  What a run of \<^verbatim>\<open>downloadPage\<close> leaves: the world, the downloads dispatched, and the two
  results.
\<close>

record pageRun =
  after :: world
  dispatched :: "download list"
  lastFetched :: bool
  failure :: "error option"

fun downloadItems :: "app \<Rightarrow> platform \<Rightarrow> Item list \<Rightarrow> world \<Rightarrow> download list \<Rightarrow> bool \<Rightarrow> pageRun outcome" where
  "downloadItems c pf [] w ts lf =
     Returns \<lparr>after = w, dispatched = ts, lastFetched = lf, failure = None\<rparr>"
| "downloadItems c pf (item # items) w ts lf =
     (case itemURLs c item of
        None \<Rightarrow> downloadItems c pf items w ts lf
      | Some (urls, text) \<Rightarrow>
          (if length urls = 0 then downloadItems c pf items w ts lf
           else
             (let dir = itemDir c pf item
              in case os_MkdirAll w dir of
                   Inl e \<Rightarrow>
                     Returns \<lparr>after = w, dispatched = ts, lastFetched = False,
                              failure = Some (Wrap e ''failed to mkdir -p for item'')\<rparr>
                 | Inr w1 \<Rightarrow>
                     (case urlLoop c w1 dir urls 0 ts of
                        Blocks \<Rightarrow> Blocks
                      | Panics \<Rightarrow> Panics
                      | Returns (fetchedItems, ts1) \<Rightarrow>
                          (case writeText pf w1 dir ''info''
                                  (ItemBase_URL pf item @ [CHR 0x0A, CHR 0x0A] @ text) of
                             (w2, _) \<Rightarrow>
                               downloadItems c pf items w2 ts1 (fetchedItems = length urls))))))"

text \<open>A nil page is dereferenced by the range clause.\<close>

definition downloadPage :: "app \<Rightarrow> platform \<Rightarrow> world \<Rightarrow> Page option \<Rightarrow> pageRun outcome" where
  "downloadPage c pf w page =
     (case page of
        None \<Rightarrow> Panics
      | Some p \<Rightarrow> downloadItems c pf (Items (PBody p)) w [] False)"

text \<open>
  The body of a dispatched download: \<^verbatim>\<open>c.session.Download\<close> of the URL, then
  \<^verbatim>\<open>downloadFile\<close> of the body. A failed download is logged and writes nothing; a nil body
  with a nil error is read by the copy.
\<close>

definition runDownload :: "app \<Rightarrow> platform \<Rightarrow> network \<Rightarrow> download \<Rightarrow> world \<Rightarrow> world outcome" where
  "runDownload c pf net t w =
     (case Download (session c) net (dl_oURL t) of
        (_, Some e) \<Rightarrow> Returns w
      | (None, None) \<Rightarrow> Panics
      | (Some r, None) \<Rightarrow> Returns (fst (downloadFile pf w (dl_dir t) (dl_name t) r)))"

fun runDownloads :: "app \<Rightarrow> platform \<Rightarrow> network \<Rightarrow> download list \<Rightarrow> world \<Rightarrow> world outcome" where
  "runDownloads c pf net [] w = Returns w"
| "runDownloads c pf net (t # ts) w =
     (case runDownload c pf net t w of
        Returns w1 \<Rightarrow> runDownloads c pf net ts w1
      | Blocks \<Rightarrow> Blocks
      | Panics \<Rightarrow> Panics)"

subsection \<open>The interleaving of the driver with the downloads in flight\<close>

text \<open>
  The state of the loop over one item's URLs while downloads run: the semaphore, the
  downloads in flight, the URLs still to examine, the counter and the world. An event is a
  step of the driver or the completion of the k-th download in flight; an event that cannot
  happen in a state (the driver has no URL left or waits for a slot, there is no k-th
  download, the process has panicked) gives \<open>None\<close>.
\<close>

record sched =
  sem :: Weighted
  running :: "download list"
  todo :: "string list"
  fetchedItems :: nat
  fsw :: world

datatype event = Driver | Finish nat

definition sched_init :: "app \<Rightarrow> world \<Rightarrow> string list \<Rightarrow> sched" where
  "sched_init c w urls = \<lparr>sem = sema c, running = [], todo = urls, fetchedItems = 0, fsw = w\<rparr>"

definition sched_step :: "app \<Rightarrow> platform \<Rightarrow> network \<Rightarrow> string \<Rightarrow> event \<Rightarrow> sched \<Rightarrow> sched option" where
  "sched_step c pf net dir ev s =
     (case ev of
        Driver \<Rightarrow>
          (case todo s of
             [] \<Rightarrow> None
           | url # urls \<Rightarrow>
               (let oURL = url; name = Base oURL
                in if os_Stat (fsw s) (Join [dir, name])
                   then Some (s\<lparr>todo := urls, fetchedItems := Suc (fetchedItems s)\<rparr>)
                   else (case Acquire (sem s) 1 of
                           None \<Rightarrow> None
                         | Some sm \<Rightarrow>
                             Some (s\<lparr>sem := sm,
                                     running := running s @
                                       [\<lparr>dl_dir = dir, dl_name = name, dl_oURL = oURL\<rparr>],
                                     todo := urls\<rparr>))))
      | Finish k \<Rightarrow>
          (if k < length (running s) then
             (case runDownload c pf net (running s ! k) (fsw s) of
                Returns w1 \<Rightarrow>
                  Some (s\<lparr>sem := Release (sem s) 1,
                          running := take k (running s) @ drop (Suc k) (running s),
                          fsw := w1\<rparr>)
              | Blocks \<Rightarrow> None
              | Panics \<Rightarrow> None)
           else None))"

fun sched_run :: "app \<Rightarrow> platform \<Rightarrow> network \<Rightarrow> string \<Rightarrow> event list \<Rightarrow> sched \<Rightarrow> sched option" where
  "sched_run c pf net dir [] s = Some s"
| "sched_run c pf net dir (ev # evs) s =
     (case sched_step c pf net dir ev s of
        None \<Rightarrow> None
      | Some s1 \<Rightarrow> sched_run c pf net dir evs s1)"

section \<open>The paginator (main.go, poll)\<close>

definition supportingURL :: string where
  "supportingURL = APIURL @ ''/post.listSupporting?limit=10''"

text \<open>
  What a poll leaves: the world, the downloads dispatched, the listing URLs fetched in
  order, and the error returned.
\<close>

record pollRun =
  pworld :: world
  pdispatched :: "download list"
  fetches :: "string list"
  presult :: "error option"

text \<open>
  The two listing calls of the session are \<^verbatim>\<open>Get\<close> on a URL, decoded into a page pointer
  (which JSON null leaves nil). The JSON decoder is an input.
\<close>

definition PostsFromURL ::
    "SessionClient \<Rightarrow> network \<Rightarrow> (readCloser \<Rightarrow> error + Page option) \<Rightarrow> string \<Rightarrow>
     (error + Page option) outcome" where
  "PostsFromURL sc net decode url = Get sc net decode url"

definition SupportingPosts ::
    "SessionClient \<Rightarrow> network \<Rightarrow> (readCloser \<Rightarrow> error + Page option) \<Rightarrow>
     (error + Page option) outcome" where
  "SupportingPosts sc net decode = PostsFromURL sc net decode supportingURL"

text \<open>
  The loop \<^verbatim>\<open>for page < c.MaxPageBehind\<close>. The switch chooses the listing call: the
  supporting listing for page 0, the next URL of the last page when there is one, and
  otherwise the loop is left.
\<close>

function poll_loop ::
    "app \<Rightarrow> platform \<Rightarrow> network \<Rightarrow> (readCloser \<Rightarrow> error + Page option) \<Rightarrow> bool \<Rightarrow>
     int \<Rightarrow> Page option \<Rightarrow> world \<Rightarrow> download list \<Rightarrow> string list \<Rightarrow> pollRun outcome" where
  "poll_loop c pf net decode fetchAll page lastPage w ts us =
     (if page < MaxPageBehind c then
        (case (if page = 0
               then Returns (Some (supportingURL, SupportingPosts (session c) net decode))
               else (case lastPage of
                       None \<Rightarrow> Panics
                     | Some lp \<Rightarrow>
                         if NextURL (PBody lp) \<noteq> []
                         then Returns (Some (NextURL (PBody lp),
                                 PostsFromURL (session c) net decode (NextURL (PBody lp))))
                         else Returns None)) of
           Panics \<Rightarrow> Panics
         | Blocks \<Rightarrow> Blocks
         | Returns None \<Rightarrow> Returns \<lparr>pworld = w, pdispatched = ts, fetches = us, presult = None\<rparr>
         | Returns (Some (url, listing)) \<Rightarrow>
             (case listing of
                Panics \<Rightarrow> Panics
              | Blocks \<Rightarrow> Blocks
              | Returns (Inl e) \<Rightarrow>
                  Returns \<lparr>pworld = w, pdispatched = ts, fetches = us @ [url],
                           presult = Some (PageErr ''failed to get supporting posts page'' page e)\<rparr>
              | Returns (Inr fetched) \<Rightarrow>
                  (case downloadPage c pf w fetched of
                     Panics \<Rightarrow> Panics
                   | Blocks \<Rightarrow> Blocks
                   | Returns r \<Rightarrow>
                       (case failure r of
                          Some e \<Rightarrow>
                            Returns \<lparr>pworld = after r, pdispatched = ts @ dispatched r,
                                     fetches = us @ [url],
                                     presult = Some (PageErr ''failed to download page'' page e)\<rparr>
                        | None \<Rightarrow>
                            if \<not> fetchAll \<and> lastFetched r
                            then Returns \<lparr>pworld = after r, pdispatched = ts @ dispatched r,
                                          fetches = us @ [url], presult = None\<rparr>
                            else poll_loop c pf net decode fetchAll (page + 1) fetched (after r)
                                   (ts @ dispatched r) (us @ [url])))))
      else Returns \<lparr>pworld = w, pdispatched = ts, fetches = us, presult = None\<rparr>)"
  by pat_completeness auto
termination
  by (relation "measure (\<lambda>(c, pf, net, decode, fetchAll, page, lastPage, w, ts, us).
        nat (MaxPageBehind c - page))") auto

declare poll_loop.simps [simp del]

definition poll ::
    "app \<Rightarrow> platform \<Rightarrow> network \<Rightarrow> (readCloser \<Rightarrow> error + Page option) \<Rightarrow> bool \<Rightarrow> world \<Rightarrow>
     pollRun outcome" where
  "poll c pf net decode fetchAll w = poll_loop c pf net decode fetchAll 0 None w [] []"

section \<open>Notions used to state the properties\<close>

text \<open>An attempt fails on a transport error or a status outside 200..299.\<close>

definition attemptFails :: "attempt \<Rightarrow> bool" where
  "attemptFails a =
     (case a of TransportError _ \<Rightarrow> True | Response code _ \<Rightarrow> code < 200 \<or> code > 299)"

text \<open>
  The error that describes one attempt: the wrapped transport error, the status code with
  the body when the body could be read, the status code alone otherwise.
\<close>

definition attemptError :: "attempt \<Rightarrow> error" where
  "attemptError a =
     (case a of
        TransportError e \<Rightarrow> Wrap e ''failed to do request''
      | Response code rc \<Rightarrow>
          (case fault rc of
             Some _ \<Rightarrow> UnexpectedStatus code
           | None \<Rightarrow> UnexpectedStatusBody code (pending rc)))"

definition errCarriesStatusAndBody :: "error option \<Rightarrow> bool" where
  "errCarriesStatusAndBody e = (case e of Some (UnexpectedStatusBody _ _) \<Rightarrow> True | _ \<Rightarrow> False)"

text \<open>The state after one iteration of the loop of \<^verbatim>\<open>get\<close> that ends in \<^verbatim>\<open>continue\<close>.\<close>

definition failedAttempt :: "(nat \<Rightarrow> attempt) \<Rightarrow> getState \<Rightarrow> getState" where
  "failedAttempt do st =
     \<lparr>body = (case do (attempts st) of
                TransportError _ \<Rightarrow> body st
              | Response _ rc \<Rightarrow> Some (Close (rc\<lparr>pending := []\<rparr>))),
      err = Some (attemptError (do (attempts st))),
      attempts = Suc (attempts st)\<rparr>"

text \<open>
  The attachment URLs of an item (none for an item the type switch skips), whether the file
  of a URL is on disk, and whether all files of an item are.
\<close>

definition attachments :: "app \<Rightarrow> Item \<Rightarrow> string list" where
  "attachments c item = (case itemURLs c item of None \<Rightarrow> [] | Some (urls, _) \<Rightarrow> urls)"

definition present :: "world \<Rightarrow> string \<Rightarrow> string \<Rightarrow> bool" where
  "present w dir url = os_Stat w (Join [dir, Base url])"

definition itemFetched :: "app \<Rightarrow> platform \<Rightarrow> world \<Rightarrow> Item \<Rightarrow> bool" where
  "itemFetched c pf w item = list_all (present w (itemDir c pf item)) (attachments c item)"

definition contributing :: "app \<Rightarrow> Item list \<Rightarrow> Item list" where
  "contributing c items = filter (\<lambda>x. attachments c x \<noteq> []) items"

text \<open>
  A synced state for a list of items: of every item with attachment URLs the directory, all
  attachment files and the info file are on disk.
\<close>

definition itemSynced :: "app \<Rightarrow> platform \<Rightarrow> world \<Rightarrow> Item \<Rightarrow> bool" where
  "itemSynced c pf w item =
     (attachments c item = [] \<or>
      (node_at w (itemDir c pf item) = Some DirNode \<and> itemFetched c pf w item \<and>
       os_Stat w (Join [itemDir c pf item, ''info''])))"

definition synced :: "app \<Rightarrow> platform \<Rightarrow> world \<Rightarrow> Item list \<Rightarrow> bool" where
  "synced c pf w items = list_all (itemSynced c pf w) items"

text \<open>
  The last item of a list that has attachment URLs, with the items before it; and the
  filesystem as the loop reaches the lookups of an item, after the items before it were
  processed and its directory was made (\<open>None\<close> when the run ends before).
\<close>

fun lastContributing :: "app \<Rightarrow> Item list \<Rightarrow> (Item list \<times> Item) option" where
  "lastContributing c [] = None"
| "lastContributing c (x # xs) =
     (case lastContributing c xs of
        Some (pre, it) \<Rightarrow> Some (x # pre, it)
      | None \<Rightarrow> if attachments c x \<noteq> [] then Some ([], x) else None)"

definition arrival :: "app \<Rightarrow> platform \<Rightarrow> world \<Rightarrow> Item list \<Rightarrow> Item \<Rightarrow> world option" where
  "arrival c pf w pre it =
     (case downloadItems c pf pre w [] False of
        Returns r1 \<Rightarrow>
          (case failure r1 of
             Some _ \<Rightarrow> None
           | None \<Rightarrow>
               (case os_MkdirAll (after r1) (itemDir c pf it) of
                  Inl _ \<Rightarrow> None
                | Inr w1 \<Rightarrow> Some w1))
      | Blocks \<Rightarrow> None
      | Panics \<Rightarrow> None)"

text \<open>
  The world between two runs of \<^verbatim>\<open>downloadPage\<close> on the same page, when the downloads
  dispatched by the first run have completed; whether it is synced for the page; and the
  second run.
\<close>

definition betweenRuns :: "app \<Rightarrow> platform \<Rightarrow> network \<Rightarrow> world \<Rightarrow> Page option \<Rightarrow> world outcome" where
  "betweenRuns c pf net w p =
     (case downloadPage c pf w p of
        Returns r \<Rightarrow> runDownloads c pf net (dispatched r) (after r)
      | Blocks \<Rightarrow> Blocks
      | Panics \<Rightarrow> Panics)"

definition syncedBetweenRuns :: "app \<Rightarrow> platform \<Rightarrow> network \<Rightarrow> world \<Rightarrow> Page \<Rightarrow> bool" where
  "syncedBetweenRuns c pf net w p =
     (case betweenRuns c pf net w (Some p) of
        Returns w1 \<Rightarrow> synced c pf w1 (Items (PBody p))
      | Blocks \<Rightarrow> False
      | Panics \<Rightarrow> False)"

definition secondRun :: "app \<Rightarrow> platform \<Rightarrow> network \<Rightarrow> world \<Rightarrow> Page option \<Rightarrow> pageRun outcome" where
  "secondRun c pf net w p =
     (case betweenRuns c pf net w p of
        Returns w1 \<Rightarrow> downloadPage c pf w1 p
      | Blocks \<Rightarrow> Blocks
      | Panics \<Rightarrow> Panics)"

definition inFlight :: "sched \<Rightarrow> nat" where
  "inFlight s = length (running s)"

definition sched_inv :: "sched \<Rightarrow> bool" where
  "sched_inv s =
     (int (length (running s)) = sem_cur (sem s) \<and> sem_cur (sem s) \<le> max 0 (sem_size (sem s)))"

section \<open>Example inputs\<close>

definition ex_platform :: platform where
  "ex_platform =
     \<lparr>Format_date = (\<lambda>_. ''D''), PathEscape = (\<lambda>s. s),
      tmpNames = (\<lambda>k. replicate (Suc k) CHR ''A'')\<rparr>"

definition ex_config :: Config where
  "ex_config =
     \<lparr>SessionID = ''s'', DestDir = ''d'', MaxParallel = 1, MaxRetries = 4, MaxPageBehind = 2,
      PollFrequency = 300, AllowFileExts = [''gif'', ''mp4'']\<rparr>"

definition ex_config_no_pages :: Config where
  "ex_config_no_pages =
     \<lparr>SessionID = ''s'', DestDir = ''d'', MaxParallel = 1, MaxRetries = 4, MaxPageBehind = 0,
      PollFrequency = 300, AllowFileExts = [''gif'', ''mp4'']\<rparr>"

definition ex_config_no_retries :: Config where
  "ex_config_no_retries =
     \<lparr>SessionID = ''s'', DestDir = ''d'', MaxParallel = 8, MaxRetries = 0, MaxPageBehind = 2,
      PollFrequency = 300, AllowFileExts = [''gif'', ''mp4'']\<rparr>"

definition mkItem :: "string \<Rightarrow> ItemType \<Rightarrow> ItemBody option \<Rightarrow> Item" where
  "mkItem title ty b =
     \<lparr>ID = ''1'', Title = title, Type = ty, PublishedDateTime = 0, CreatorID = ''c'', Body = b\<rparr>"

definition imgA :: Item where
  "imgA = mkItem ''a'' ''image'' (Some (ImageBody ''hi'' [\<lparr>OriginalURL = ''h/x''\<rparr>]))"

definition imgB :: Item where
  "imgB = mkItem ''b'' ''image'' (Some (ImageBody ''hi'' [\<lparr>OriginalURL = ''h/y''\<rparr>]))"

definition imgXY :: Item where
  "imgXY =
     mkItem ''a'' ''image''
       (Some (ImageBody ''hi'' [\<lparr>OriginalURL = ''h/x''\<rparr>, \<lparr>OriginalURL = ''h/y''\<rparr>]))"

text \<open>An image in the directory of \<open>imgA\<close> whose one attachment is named \<open>info\<close>.\<close>

definition imgInfo :: Item where
  "imgInfo = mkItem ''a'' ''image'' (Some (ImageBody ''hi'' [\<lparr>OriginalURL = ''h/info''\<rparr>]))"

definition art :: Item where
  "art = mkItem ''r'' ''article'' (Some ArticleBody)"

definition mkPage :: "Item list \<Rightarrow> Page" where
  "mkPage xs = \<lparr>PBody = \<lparr>Items = xs, NextURL = ''n''\<rparr>\<rparr>"

definition emptyWorld :: world where
  "emptyWorld = \<lparr>nodes = Map.empty, calls = 0\<rparr>"

text \<open>A world where the directory of \<open>imgA\<close>, its one attachment and its info file exist.\<close>

definition worldA :: world where
  "worldA =
     \<lparr>nodes = [''d'' \<mapsto> DirNode, ''d/c'' \<mapsto> DirNode, ''d/c/D: a'' \<mapsto> DirNode,
               ''d/c/D: a/x'' \<mapsto> FileNode ''img'', ''d/c/D: a/info'' \<mapsto> FileNode ''i''],
      calls = 0\<rparr>"

text \<open>The world \<open>worldA\<close> without the info file, and with a file where \<open>imgB\<close> needs a directory.\<close>

definition worldNoInfo :: world where
  "worldNoInfo =
     \<lparr>nodes = [''d'' \<mapsto> DirNode, ''d/c'' \<mapsto> DirNode, ''d/c/D: a'' \<mapsto> DirNode,
               ''d/c/D: a/x'' \<mapsto> FileNode ''img''],
      calls = 0\<rparr>"

definition worldFileAtB :: world where
  "worldFileAtB =
     \<lparr>nodes = [''d'' \<mapsto> DirNode, ''d/c'' \<mapsto> DirNode, ''d/c/D: a'' \<mapsto> DirNode,
               ''d/c/D: a/x'' \<mapsto> FileNode ''img'', ''d/c/D: a/info'' \<mapsto> FileNode ''i'',
               ''d/c/D: b'' \<mapsto> FileNode ''f''],
      calls = 0\<rparr>"

definition netDown :: network where
  "netDown = \<lparr>validURL = (\<lambda>_. True), exchange = (\<lambda>_ _. TransportError (Err ''timeout''))\<rparr>"

definition net200 :: network where
  "net200 =
     \<lparr>validURL = (\<lambda>_. True),
      exchange = (\<lambda>_ _. Response 200 \<lparr>pending = ''ok'', fault = None, closed = False\<rparr>)\<rparr>"

definition net503 :: network where
  "net503 =
     \<lparr>validURL = (\<lambda>_. True),
      exchange = (\<lambda>_ _. Response 503 \<lparr>pending = ''busy'', fault = None, closed = False\<rparr>)\<rparr>"

text \<open>
  A server that answers every request with status 200 and the JSON of a page, and a decoder
  that reads that JSON as the page of \<open>imgA\<close> and an article.
\<close>

definition netPage :: network where
  "netPage =
     \<lparr>validURL = (\<lambda>_. True),
      exchange = (\<lambda>_ _. Response 200 \<lparr>pending = ''page'', fault = None, closed = False\<rparr>)\<rparr>"

definition decodePage :: "readCloser \<Rightarrow> error + Page option" where
  "decodePage r = Inr (Some (mkPage [imgA, art]))"

text \<open>A decoded item base with a type tag the decoder does not know, and a fresh item.\<close>

definition videoBase :: ItemBase where
  "videoBase =
     \<lparr>ID = ''7'', Title = ''v'', Type = ''video'', PublishedDateTime = 0, CreatorID = ''c''\<rparr>"

definition videoItem :: Item where
  "videoItem = (mkItem ''v'' ''video'' None)\<lparr>ID := ''7''\<rparr>"

definition zeroItem :: Item where
  "zeroItem =
     \<lparr>ID = [], Title = [], Type = [], PublishedDateTime = 0, CreatorID = [], Body = None\<rparr>"

definition unmarshalVideo :: "ItemBase \<Rightarrow> error option \<times> ItemBase" where
  "unmarshalVideo b = (None, videoBase)"

definition unmarshalAsGiven :: "ItemBody \<Rightarrow> error + ItemBody option" where
  "unmarshalAsGiven b = Inr (Some b)"

definition brokenBody :: readCloser where
  "brokenBody = \<lparr>pending = ''par'', fault = Some (Err ''connection reset''), closed = False\<rparr>"

section \<open>The fetcher: what the retry loop returns\<close>

lemma get_loop_iterate:
  "i < Retries sc \<Longrightarrow> get_loop sc do i st = get_loop sc do (i + 1) (failedAttempt do st)"
  by (subst get_loop.simps, cases st)
     (simp add: failedAttempt_def attemptError_def ReadAll_def split: attempt.splits option.splits)

lemma get_loop_done: "\<not> i < Retries sc \<Longrightarrow> get_loop sc do i st = st"
  by (subst get_loop.simps) simp

text \<open>
  Every iteration ends in \<^verbatim>\<open>continue\<close>: the loop runs \<open>Retries - i\<close> times from \<open>i\<close>, and the
  error left is the one of the last attempt.
\<close>

lemma get_loop_unroll:
  "n = nat (Retries sc - i) \<Longrightarrow>
     attempts (get_loop sc do i st) = attempts st + n \<and>
     (0 < n \<longrightarrow> err (get_loop sc do i st) = Some (attemptError (do (attempts st + n - 1))))"
proof (induction n arbitrary: i st)
  case 0
  then have "\<not> i < Retries sc" by simp
  then show ?case by (simp add: get_loop_done)
next
  case (Suc n)
  then have lt: "i < Retries sc" and n: "n = nat (Retries sc - (i + 1))" by simp_all
  note IH = Suc.IH [OF n, of "failedAttempt do st"]
  have a: "attempts (failedAttempt do st) = Suc (attempts st)"
    by (simp add: failedAttempt_def)
  show ?case
  proof (cases n)
    case 0
    then have "\<not> i + 1 < Retries sc" using n by simp
    then have "get_loop sc do i st = failedAttempt do st"
      using lt by (simp add: get_loop_iterate get_loop_done)
    then show ?thesis using 0 by (simp add: failedAttempt_def)
  next
    case (Suc m)
    then show ?thesis using IH lt a by (simp add: get_loop_iterate)
  qed
qed

text \<open>With a retry count of zero or more, \<^verbatim>\<open>get\<close> returns an error whatever the server answers.\<close>

lemma get_always_fails: "0 \<le> Retries sc \<Longrightarrow> err (get sc net url) \<noteq> None"
  using get_loop_unroll [of "nat (Retries sc + 1)" sc "- 1" "exchange net url"
      "\<lparr>body = None, err = None, attempts = 0\<rparr>"]
  by (simp add: get_def)

text \<open>
  C2. A fetch whose request yields a 2xx response should return the body with a nil error
  and issue no further request. The source does not: against a server that answers every
  request with status 200 and body \<open>ok\<close>, and with four retries configured, \<^verbatim>\<open>get\<close> issues
  five requests, and \<^verbatim>\<open>Download\<close> returns the error "unexpected status code 200, body ok"
  together with the drained, closed body of the last response.
\<close>

theorem get_2xx_is_retried_and_fails:
  "attempts (get \<lparr>Retries = 4\<rparr> net200 ''u'') = 5 \<and>
   err (get \<lparr>Retries = 4\<rparr> net200 ''u'') = Some (UnexpectedStatusBody 200 ''ok'') \<and>
   Download \<lparr>Retries = 4\<rparr> net200 ''u'' =
     (Some \<lparr>pending = [], fault = None, closed = True\<rparr>, Some (UnexpectedStatusBody 200 ''ok''))"
  by code_simp

text \<open>
  C7, as stated, fails. With no retries and a transport that times out, every attempt fails
  and one request is made, but the error returned is the wrapped transport error: it
  carries neither a status code nor a body.
\<close>

theorem get_transport_error_counterexample:
  "attemptFails (exchange netDown ''u'' 0) \<and>
   attempts (get \<lparr>Retries = 0\<rparr> netDown ''u'') = 1 \<and>
   err (get \<lparr>Retries = 0\<rparr> netDown ''u'') = Some (Wrap (Err ''timeout'') ''failed to do request'') \<and>
   \<not> errCarriesStatusAndBody (err (get \<lparr>Retries = 0\<rparr> netDown ''u''))"
  by code_simp

text \<open>
  C7, amended. For every retry count \<open>R \<ge> 0\<close>, a fetch of a well-formed URL whose every
  attempt fails executes exactly \<open>R + 1\<close> requests and then returns the error of the last
  attempt: the wrapped transport error if the request could not be executed, the status
  code with the body if the body was read, the status code alone if reading it failed.
\<close>

theorem get_retry_bound:
  assumes "0 \<le> Retries sc"
    and "validURL net url"
    and "\<forall>k \<le> nat (Retries sc). attemptFails (exchange net url k)"
  shows "attempts (get sc net url) = nat (Retries sc + 1) \<and>
         err (get sc net url) = Some (attemptError (exchange net url (nat (Retries sc))))"
  using assms(1,2)
    get_loop_unroll [of "nat (Retries sc + 1)" sc "- 1" "exchange net url"
      "\<lparr>body = None, err = None, attempts = 0\<rparr>"]
  by (simp add: get_def nat_add_distrib)

theorem get_retry_bound_witness:
  "0 \<le> Retries \<lparr>Retries = 4\<rparr> \<and> validURL net503 ''u'' \<and>
   list_all (\<lambda>k. attemptFails (exchange net503 ''u'' k)) [0, 1, 2, 3, 4] \<and>
   attempts (get \<lparr>Retries = 4\<rparr> net503 ''u'') = 5 \<and>
   err (get \<lparr>Retries = 4\<rparr> net503 ''u'') = Some (UnexpectedStatusBody 503 ''busy'')"
proof -
  have h1: "0 \<le> Retries \<lparr>Retries = 4\<rparr>" by simp
  have h2: "validURL net503 ''u''" by (simp add: net503_def)
  have h3: "\<forall>k \<le> nat (Retries \<lparr>Retries = 4\<rparr>). attemptFails (exchange net503 ''u'' k)"
    by (simp add: net503_def attemptFails_def)
  from get_retry_bound [OF h1 h2 h3] h1 h2 show ?thesis
    by (simp add: net503_def attemptError_def attemptFails_def)
qed

section \<open>Path sanitising\<close>

lemma Replace_append: "Replace ps (a @ b) = Replace ps a @ Replace ps b"
  by (induction a) simp_all

lemma splitSlash_plain: "CHR ''/'' \<notin> set x \<Longrightarrow> splitSlash x = [x]"
  by (induction x) auto

lemma sanitizePath_no_slash: "CHR ''/'' \<notin> set (sanitizePath s)"
  by (induction s) (auto simp add: sanitizePath_def sanitizer_def slashReplacement_def)

lemma sanitizePath_no_nul: "CHR 0x00 \<notin> set (sanitizePath s)"
  by (induction s) (auto simp add: sanitizePath_def sanitizer_def slashReplacement_def)

lemma sanitizePath_length:
  "length (sanitizePath s) + count_list s (CHR 0x00) = length s + 8 * count_list s (CHR ''/'')"
  by (induction s) (simp_all add: sanitizePath_def sanitizer_def slashReplacement_def)

text \<open>
  C8, as stated, fails: the separator is not replaced by a single character. The one-byte
  string \<open>/\<close> becomes the nine-byte replacement string of the source.
\<close>

theorem sanitizePath_slash_counterexample:
  "sanitizePath ''/'' = slashReplacement \<and> length (sanitizePath ''/'') = 9 \<and>
   sanitizePath ''a/b'' = ''a'' @ slashReplacement @ ''b''"
  by code_simp

text \<open>
  C8, amended. For every string, \<^verbatim>\<open>sanitizePath\<close> replaces each separator byte \<open>/\<close> by the
  fixed replacement string of the source (a space, a seven-byte sequence, a space), removes
  each null byte and copies every other byte in order; the result contains no separator and
  no null byte, so it is a single path component.
\<close>

theorem sanitizePath_component:
  "CHR ''/'' \<notin> set (sanitizePath s) \<and> CHR 0x00 \<notin> set (sanitizePath s) \<and>
   splitSlash (sanitizePath s) = [sanitizePath s] \<and>
   sanitizePath (a @ b) = sanitizePath a @ sanitizePath b \<and>
   sanitizePath [c] =
     (if c = CHR ''/'' then slashReplacement else if c = CHR 0x00 then [] else [c]) \<and>
   length (sanitizePath s) + count_list s (CHR 0x00) = length s + 8 * count_list s (CHR ''/'')"
  using sanitizePath_length [of s] splitSlash_plain [OF sanitizePath_no_slash [of s]]
    sanitizePath_no_slash [of s] sanitizePath_no_nul [of s]
  by (simp add: sanitizePath_def Replace_append sanitizer_def)

section \<open>The atomic write protocol\<close>

lemma os_Create_other:
  "os_Create w tmp = Inr w1 \<Longrightarrow> tmp \<noteq> dst \<Longrightarrow> node_at w1 dst = node_at w dst"
  by (auto simp add: os_Create_def node_at_def split: if_splits)

lemma os_Create_plain:
  "os_Create w tmp = Inr w1 \<Longrightarrow> tmp \<noteq> ''/'' \<and> tmp \<noteq> ''.'' \<and> tmp \<noteq> ''..''"
  by (auto simp add: os_Create_def node_at_def split: if_splits)

lemma io_Copy_other: "tmp \<noteq> dst \<Longrightarrow> node_at (fst (io_Copy w1 tmp r)) dst = node_at w1 dst"
  by (simp add: io_Copy_def node_at_def)

lemma os_Remove_other: "tmp \<noteq> dst \<Longrightarrow> node_at (os_Remove w2 tmp) dst = node_at w2 dst"
  by (simp add: os_Remove_def node_at_def)

lemma os_Remove_gone:
  "tmp \<noteq> ''/'' \<and> tmp \<noteq> ''.'' \<and> tmp \<noteq> ''..'' \<Longrightarrow> node_at (os_Remove w2 tmp) tmp = None"
  by (simp add: os_Remove_def node_at_def)

text \<open>
  C6. For every write through \<^verbatim>\<open>writeTmp\<close> to a destination other than the temporary
  path: if the temporary file was created and copying the body into it fails, the call
  returns an error, the temporary file is removed and the destination is as it was. The
  destination changes only in a call that returns no error, and then it holds the whole
  body, renamed from the temporary path. Creating the temporary file and copying into it
  leave the destination as it was.
\<close>

theorem writeTmp_atomic:
  assumes neq: "tmp \<noteq> dst"
    and run: "writeTmp w dst tmp r = (w', e)"
  shows "(\<not> isl (os_Create w tmp) \<and> fault r \<noteq> None \<longrightarrow>
            e \<noteq> None \<and> node_at w' tmp = None \<and> node_at w' dst = node_at w dst) \<and>
         (node_at w' dst = node_at w dst \<or>
          (e = None \<and> fault r = None \<and> node_at w' dst = Some (FileNode (pending r)) \<and>
           node_at w' tmp = None)) \<and>
         (case os_Create w tmp of
            Inl _ \<Rightarrow> w' = w
          | Inr w1 \<Rightarrow>
              node_at w1 dst = node_at w dst \<and>
              node_at (fst (io_Copy w1 tmp r)) dst = node_at w dst)"
proof (cases "os_Create w tmp")
  case (Inl x)
  with run show ?thesis by (simp add: writeTmp_def)
next
  case (Inr w1)
  note c1 = os_Create_other [OF Inr neq]
  note pl = os_Create_plain [OF Inr]
  obtain w2 ce where cp: "io_Copy w1 tmp r = (w2, ce)" by (cases "io_Copy w1 tmp r")
  have c2: "node_at w2 dst = node_at w dst"
    using io_Copy_other [OF neq, of w1 r] cp c1 by simp
  have ce: "ce = fault r" and w2: "nodes w2 tmp = Some (FileNode (pending r))"
    using cp by (auto simp add: io_Copy_def)
  show ?thesis
  proof (cases "fault r")
    case (Some x)
    then have "w' = os_Remove w2 tmp" and "e \<noteq> None"
      using run Inr cp ce by (auto simp add: writeTmp_def)
    then show ?thesis
      using Inr Some c1 c2 cp os_Remove_other [OF neq, of w2] os_Remove_gone [OF pl, of w2]
      by simp
  next
    case None
    show ?thesis
    proof (cases "os_Rename w2 tmp dst")
      case (Inl x)
      then have "w' = w2" using run Inr cp ce None by (simp add: writeTmp_def)
      then show ?thesis using Inr None c1 c2 cp by simp
    next
      case r3: (Inr w3)
      then have w': "w' = w3" and e: "e = None"
        using run Inr cp ce None by (simp_all add: writeTmp_def)
      have "node_at w3 dst = Some (FileNode (pending r)) \<and> node_at w3 tmp = None"
        using r3 w2 pl neq
        by (auto simp add: os_Rename_def node_at_def split: if_splits option.splits node.splits)
      then show ?thesis using Inr None c1 c2 cp w' e by simp
    qed
  qed
qed

lemma create_worldA:
  "os_Create worldA ''d/c/D: a/.tmp.A'' =
     Inr (worldA\<lparr>nodes := (nodes worldA)(''d/c/D: a/.tmp.A'' \<mapsto> FileNode [])\<rparr>)"
proof -
  have "node_at worldA ''d/c/D: a/.tmp.A'' \<noteq> Some DirNode" by code_simp
  moreover have "parentIsDir worldA ''d/c/D: a/.tmp.A''" by code_simp
  ultimately show ?thesis by (simp add: os_Create_def)
qed

lemma writeTmp_worldA_broken:
  "writeTmp worldA ''d/c/D: a/x'' ''d/c/D: a/.tmp.A'' brokenBody =
     (worldA\<lparr>nodes := (nodes worldA)(''d/c/D: a/.tmp.A'' := None)\<rparr>,
      Some (Wrap (Err ''connection reset'') ''failed to download image to tmp file''))"
  by (simp add: writeTmp_def create_worldA io_Copy_def os_Remove_def brokenBody_def)

theorem writeTmp_atomic_witness:
  "''d/c/D: a/.tmp.A'' \<noteq> ''d/c/D: a/x'' \<and>
   \<not> isl (os_Create worldA ''d/c/D: a/.tmp.A'') \<and> fault brokenBody \<noteq> None \<and>
   writeTmp worldA ''d/c/D: a/x'' ''d/c/D: a/.tmp.A'' brokenBody =
     (worldA\<lparr>nodes := (nodes worldA)(''d/c/D: a/.tmp.A'' := None)\<rparr>,
      Some (Wrap (Err ''connection reset'') ''failed to download image to tmp file'')) \<and>
   node_at (worldA\<lparr>nodes := (nodes worldA)(''d/c/D: a/.tmp.A'' := None)\<rparr>) ''d/c/D: a/.tmp.A'' = None \<and>
   node_at (worldA\<lparr>nodes := (nodes worldA)(''d/c/D: a/.tmp.A'' := None)\<rparr>) ''d/c/D: a/x'' =
     node_at worldA ''d/c/D: a/x'' \<and>
   node_at worldA ''d/c/D: a/x'' = Some (FileNode ''img'')"
proof -
  have h1: "''d/c/D: a/.tmp.A'' \<noteq> ''d/c/D: a/x''" by simp
  have h3: "\<not> isl (os_Create worldA ''d/c/D: a/.tmp.A'')" by (simp add: create_worldA)
  have h4: "fault brokenBody \<noteq> None" by (simp add: brokenBody_def)
  have h5: "node_at worldA ''d/c/D: a/x'' = Some (FileNode ''img'')" by code_simp
  from writeTmp_atomic [OF h1 writeTmp_worldA_broken] h1 h3 h4 h5 writeTmp_worldA_broken
  show ?thesis by simp
qed

section \<open>The download scheduler: the loop over the items\<close>

lemma downloadItems_skip:
  "attachments c x = [] \<Longrightarrow> downloadItems c pf (x # xs) w ts lf = downloadItems c pf xs w ts lf"
  by (simp add: attachments_def split: option.splits prod.splits)

lemma downloadItems_all_skipped:
  "list_all (\<lambda>x. attachments c x = []) xs \<Longrightarrow>
   downloadItems c pf xs w ts lf =
     Returns \<lparr>after = w, dispatched = ts, lastFetched = lf, failure = None\<rparr>"
proof (induction xs)
  case Nil
  show ?case by simp
next
  case (Cons x xs)
  then show ?case by (simp add: downloadItems_skip del: downloadItems.simps)
qed

text \<open>The loop over a list of items runs the loop over a prefix first.\<close>

lemma downloadItems_append:
  "downloadItems c pf (xs @ ys) w ts lf =
     (case downloadItems c pf xs w ts lf of
        Returns r \<Rightarrow>
          (case failure r of
             None \<Rightarrow> downloadItems c pf ys (after r) (dispatched r) (lastFetched r)
           | Some e \<Rightarrow> Returns r)
      | Blocks \<Rightarrow> Blocks
      | Panics \<Rightarrow> Panics)"
proof (induction xs arbitrary: w ts lf)
  case Nil
  show ?case by simp
next
  case (Cons x xs)
  show ?case
    by (simp add: Cons.IH Let_def split: option.splits prod.splits sum.splits outcome.splits)
qed

lemma downloadItems_failure:
  "downloadItems c pf xs w ts lf = Returns r \<Longrightarrow> failure r \<noteq> None \<Longrightarrow> \<not> lastFetched r"
proof (induction xs arbitrary: w ts lf)
  case Nil
  then show ?case by auto
next
  case (Cons x xs)
  from Cons.prems show ?case
    by (auto simp add: Let_def dest: Cons.IH
          split: option.splits prod.splits sum.splits outcome.splits if_splits)
qed

lemma urlLoop_returns:
  "\<not> waitsForever (sema c) 1 \<Longrightarrow>
   \<exists>ts1. urlLoop c w dir urls n ts = Returns (n + length (filter (present w dir) urls), ts1)"
proof (induction urls arbitrary: n ts)
  case Nil
  show ?case by simp
next
  case (Cons u urls)
  from Cons.IH [OF Cons.prems, of "Suc n" ts]
       Cons.IH [OF Cons.prems, of n "ts @ [\<lparr>dl_dir = dir, dl_name = Base u, dl_oURL = u\<rparr>]"]
       Cons.prems
  show ?case by (auto simp add: present_def Let_def)
qed

lemma urlLoop_all_present:
  "list_all (present w dir) urls \<Longrightarrow> urlLoop c w dir urls n ts = Returns (n + length urls, ts)"
  by (induction urls arbitrary: n) (simp_all add: present_def Let_def)

lemma filter_length_all: "(length (filter P xs) = length xs) = list_all P xs"
proof (induction xs)
  case Nil
  show ?case by simp
next
  case (Cons x xs)
  have "length (filter P xs) \<noteq> Suc (length xs)"
    using length_filter_le [of P xs] by arith
  with Cons show ?case by simp
qed

section \<open>The download scheduler: the value of lastFetched\<close>

lemma urlLoop_count:
  "urlLoop c w dir urls n ts = Returns (n', ts') \<Longrightarrow>
   n' = n + length (filter (present w dir) urls)"
proof (induction urls arbitrary: n ts)
  case Nil
  then show ?case by simp
next
  case (Cons u urls)
  show ?case
  proof (cases "present w dir u")
    case True
    with Cons.prems have "urlLoop c w dir urls (Suc n) ts = Returns (n', ts')"
      by (simp add: present_def Let_def)
    from Cons.IH [OF this] True show ?thesis by simp
  next
    case False
    with Cons.prems
    have "urlLoop c w dir urls n (ts @ [\<lparr>dl_dir = dir, dl_name = Base u, dl_oURL = u\<rparr>]) =
            Returns (n', ts')"
      by (simp add: present_def Let_def split: if_splits)
    from Cons.IH [OF this] False show ?thesis by simp
  qed
qed

lemma lastContributing_None:
  "lastContributing c items = None \<Longrightarrow> list_all (\<lambda>x. attachments c x = []) items"
  by (induction items) (auto split: option.splits if_splits)

lemma lastContributing_Some:
  "lastContributing c items = Some (pre, it) \<Longrightarrow>
   \<exists>post. items = pre @ [it] @ post \<and> attachments c it \<noteq> [] \<and>
          list_all (\<lambda>x. attachments c x = []) post"
proof (induction items arbitrary: pre)
  case Nil
  then show ?case by simp
next
  case (Cons x xs)
  show ?case
  proof (cases "lastContributing c xs")
    case None
    with Cons.prems have "pre = []" and "it = x" and "attachments c x \<noteq> []"
      by (auto split: if_splits)
    with lastContributing_None [OF None] show ?thesis by simp
  next
    case (Some q)
    obtain pre' it' where q: "q = (pre', it')" by (cases q)
    with Some Cons.prems have p: "pre = x # pre'" and i: "it' = it" by auto
    from Cons.IH [of pre'] Some q i obtain post where
      "xs = pre' @ [it] @ post" "attachments c it \<noteq> []" "list_all (\<lambda>x. attachments c x = []) post"
      by auto
    with p show ?thesis by auto
  qed
qed

text \<open>The one contributing item followed by skipped items.\<close>

lemma downloadItems_deciding:
  assumes a: "attachments c it \<noteq> []"
    and post: "list_all (\<lambda>x. attachments c x = []) post"
    and run: "downloadItems c pf ([it] @ post) w ts lf = Returns r"
  shows "(case os_MkdirAll w (itemDir c pf it) of
            Inl e \<Rightarrow> failure r \<noteq> None \<and> \<not> lastFetched r
          | Inr w1 \<Rightarrow> failure r = None \<and> lastFetched r = itemFetched c pf w1 it)"
proof -
  obtain urls caption where u: "itemURLs c it = Some (urls, caption)"
    and au: "attachments c it = urls"
    using a by (auto simp add: attachments_def split: option.splits)
  have ne: "urls \<noteq> []" using a au by simp
  show ?thesis
  proof (cases "os_MkdirAll w (itemDir c pf it)")
    case (Inl e)
    with run u ne show ?thesis by auto
  next
    case (Inr w1)
    show ?thesis
    proof (cases "urlLoop c w1 (itemDir c pf it) urls 0 ts")
      case (Returns q)
      obtain n ts1 where q: "q = (n, ts1)" by (cases q)
      from urlLoop_count [of c w1 "itemDir c pf it" urls 0 ts n ts1] Returns q
      have n: "n = length (filter (present w1 (itemDir c pf it)) urls)" by simp
      obtain w2 e2 where wt:
        "writeText pf w1 (itemDir c pf it) ''info''
           (ItemBase_URL pf it @ [CHR 0x0A, CHR 0x0A] @ caption) = (w2, e2)"
        by (cases "writeText pf w1 (itemDir c pf it) ''info''
                     (ItemBase_URL pf it @ [CHR 0x0A, CHR 0x0A] @ caption)")
      from run u ne Inr Returns q wt downloadItems_all_skipped [OF post, of pf w2 ts1]
      have "r = \<lparr>after = w2, dispatched = ts1, lastFetched = (n = length urls), failure = None\<rparr>"
        by simp
      then show ?thesis using Inr n au by (simp add: filter_length_all itemFetched_def)
    next
      case Blocks
      with run u ne Inr show ?thesis by simp
    next
      case Panics
      with run u ne Inr show ?thesis by simp
    qed
  qed
qed

text \<open>
  C3, as stated, fails, in four ways. Two pages that end in the same article, run on the
  same filesystem, return true and false: the value is that of the image item before the
  article, which the loop skips. A page of one article returns false, though none of its
  attachments is missing. A page whose first item cannot get its directory (a file is in
  the way) returns false with an error, though every attachment of its last item is on
  disk. And a page whose last item has an attachment named \<open>info\<close>, in the directory of the
  item before it, returns true though that file was not on disk before the run: the run
  itself wrote the info file of the earlier item there.
\<close>

theorem lastFetched_counterexample:
  "last (Items (PBody (mkPage [imgA, art]))) = art \<and>
   last (Items (PBody (mkPage [imgB, art]))) = art \<and>
   itemFetched (newApp ex_config) ex_platform worldA art \<and>
   map_outcome lastFetched
     (downloadPage (newApp ex_config) ex_platform worldA (Some (mkPage [imgA, art]))) = Returns True \<and>
   map_outcome lastFetched
     (downloadPage (newApp ex_config) ex_platform worldA (Some (mkPage [imgB, art]))) = Returns False \<and>
   map_outcome lastFetched
     (downloadPage (newApp ex_config) ex_platform worldA (Some (mkPage [art]))) = Returns False \<and>
   last (Items (PBody (mkPage [imgB, imgA]))) = imgA \<and>
   itemFetched (newApp ex_config) ex_platform worldFileAtB imgA \<and>
   map_outcome failure
     (downloadPage (newApp ex_config) ex_platform worldFileAtB (Some (mkPage [imgB, imgA]))) =
     Returns (Some (Wrap (Err ''not a directory'') ''failed to mkdir -p for item'')) \<and>
   map_outcome lastFetched
     (downloadPage (newApp ex_config) ex_platform worldFileAtB (Some (mkPage [imgB, imgA]))) =
     Returns False \<and>
   last (Items (PBody (mkPage [imgA, imgInfo]))) = imgInfo \<and>
   \<not> itemFetched (newApp ex_config) ex_platform worldNoInfo imgInfo \<and>
   map_outcome lastFetched
     (downloadPage (newApp ex_config) ex_platform worldNoInfo (Some (mkPage [imgA, imgInfo]))) =
     Returns True"
  by code_simp

text \<open>
  C3, amended. For every page and every run of \<^verbatim>\<open>downloadPage\<close> on it that returns: when
  the run returns an error, \<^verbatim>\<open>lastFetched\<close> is false; when it returns no error,
  \<^verbatim>\<open>lastFetched\<close> is false if no item of the page has an attachment URL, and otherwise it
  is the completeness value computed for the last item of the page that has at least one
  attachment URL, alone: whether every attachment file of that item is on disk when the
  loop reaches the item, that is after the items before it were processed and its directory
  was made. It is not an aggregate over the items of the page.
\<close>

theorem downloadPage_lastFetched:
  assumes run: "downloadPage c pf w (Some p) = Returns r"
  shows "(failure r \<noteq> None \<longrightarrow> \<not> lastFetched r) \<and>
         (failure r = None \<longrightarrow>
            (case lastContributing c (Items (PBody p)) of
               None \<Rightarrow> \<not> lastFetched r
             | Some (pre, it) \<Rightarrow>
                 (case arrival c pf w pre it of
                    None \<Rightarrow> False
                  | Some w1 \<Rightarrow> lastFetched r = itemFetched c pf w1 it)))"
proof -
  from run have items: "downloadItems c pf (Items (PBody p)) w [] False = Returns r"
    by (simp add: downloadPage_def)
  have first: "failure r \<noteq> None \<longrightarrow> \<not> lastFetched r"
    using downloadItems_failure [OF items] by blast
  have second: "case lastContributing c (Items (PBody p)) of
               None \<Rightarrow> \<not> lastFetched r
             | Some (pre, it) \<Rightarrow>
                 (case arrival c pf w pre it of
                    None \<Rightarrow> False
                  | Some w1 \<Rightarrow> lastFetched r = itemFetched c pf w1 it)"
    if ok: "failure r = None"
  proof (cases "lastContributing c (Items (PBody p))")
    case None
    from downloadItems_all_skipped [OF lastContributing_None [OF None], of pf w "[]" False] items
    show ?thesis using None by auto
  next
    case (Some q)
    obtain pre it where q: "q = (pre, it)" by (cases q)
    from lastContributing_Some [of c "Items (PBody p)" pre it] Some q obtain post where
      split: "Items (PBody p) = pre @ [it] @ post" and a: "attachments c it \<noteq> []"
      and post: "list_all (\<lambda>x. attachments c x = []) post"
      by auto
    from items split
    have app: "(case downloadItems c pf pre w [] False of
        Returns r1 \<Rightarrow>
          (case failure r1 of
             None \<Rightarrow> downloadItems c pf ([it] @ post) (after r1) (dispatched r1) (lastFetched r1)
           | Some e \<Rightarrow> Returns r1)
      | Blocks \<Rightarrow> Blocks
      | Panics \<Rightarrow> Panics) = Returns r"
      by (simp only: downloadItems_append [of c pf pre "[it] @ post", symmetric])
    then obtain r1 where r1: "downloadItems c pf pre w [] False = Returns r1"
      by (cases "downloadItems c pf pre w [] False") simp_all
    have f1: "failure r1 = None"
    proof (cases "failure r1")
      case None
      then show ?thesis .
    next
      case (Some e)
      with app r1 have "r = r1" by simp
      with Some ok show ?thesis by simp
    qed
    from app r1 f1
    have rest: "downloadItems c pf ([it] @ post) (after r1) (dispatched r1) (lastFetched r1) = Returns r"
      by simp
    from downloadItems_deciding [OF a post rest] ok
    obtain w1 where mk: "os_MkdirAll (after r1) (itemDir c pf it) = Inr w1"
      and v: "lastFetched r = itemFetched c pf w1 it"
      by (cases "os_MkdirAll (after r1) (itemDir c pf it)") auto
    from r1 f1 mk have "arrival c pf w pre it = Some w1" by (simp add: arrival_def)
    with v Some q show ?thesis by simp
  qed
  from first second show ?thesis by blast
qed

lemma Returns_of_map_outcome: "map_outcome f x = Returns y \<Longrightarrow> \<exists>r. x = Returns r \<and> f r = y"
  by (cases x) simp_all

theorem downloadPage_lastFetched_witness:
  "(\<exists>r. downloadPage (newApp ex_config) ex_platform worldA (Some (mkPage [imgB, imgA, art])) = Returns r \<and>
        failure r = None \<and> lastFetched r) \<and>
   lastContributing (newApp ex_config) (Items (PBody (mkPage [imgB, imgA, art]))) = Some ([imgB], imgA) \<and>
   (case arrival (newApp ex_config) ex_platform worldA [imgB] imgA of
      None \<Rightarrow> False
    | Some w1 \<Rightarrow> itemFetched (newApp ex_config) ex_platform w1 imgA)"
proof -
  have "map_outcome failure
          (downloadPage (newApp ex_config) ex_platform worldA (Some (mkPage [imgB, imgA, art]))) =
        Returns None"
    by code_simp
  from Returns_of_map_outcome [OF this] obtain r where
    run: "downloadPage (newApp ex_config) ex_platform worldA (Some (mkPage [imgB, imgA, art])) = Returns r"
    and ok: "failure r = None" by blast
  have lc: "lastContributing (newApp ex_config) (Items (PBody (mkPage [imgB, imgA, art]))) =
              Some ([imgB], imgA)"
    by code_simp
  have ar: "case arrival (newApp ex_config) ex_platform worldA [imgB] imgA of
      None \<Rightarrow> False
    | Some w1 \<Rightarrow> itemFetched (newApp ex_config) ex_platform w1 imgA"
    by code_simp
  from downloadPage_lastFetched [OF run] ok lc ar have "lastFetched r"
    by (auto split: option.splits)
  with run ok lc ar show ?thesis by blast
qed

text \<open>When the semaphore has a slot, the loop over the items returns.\<close>

lemma downloadItems_returns:
  "\<not> waitsForever (sema c) 1 \<Longrightarrow> \<exists>r. downloadItems c pf items w ts lf = Returns r"
proof (induction items arbitrary: w ts lf)
  case Nil
  show ?case by simp
next
  case (Cons x xs)
  show ?case
  proof (cases "attachments c x = []")
    case True
    with Cons.IH [OF Cons.prems] show ?thesis by (simp add: downloadItems_skip del: downloadItems.simps)
  next
    case False
    then obtain urls caption where u: "itemURLs c x = Some (urls, caption)" and ne: "urls \<noteq> []"
      by (auto simp add: attachments_def split: option.splits)
    show ?thesis
    proof (cases "os_MkdirAll w (itemDir c pf x)")
      case (Inl e)
      with u ne show ?thesis by simp
    next
      case (Inr w1)
      from urlLoop_returns [OF Cons.prems, of w1 "itemDir c pf x" urls 0 ts] obtain n ts1 where
        l: "urlLoop c w1 (itemDir c pf x) urls 0 ts = Returns (n, ts1)" by auto
      obtain w2 e2 where wt:
        "writeText pf w1 (itemDir c pf x) ''info''
           (ItemBase_URL pf x @ [CHR 0x0A, CHR 0x0A] @ caption) = (w2, e2)"
        by (cases "writeText pf w1 (itemDir c pf x) ''info''
                     (ItemBase_URL pf x @ [CHR 0x0A, CHR 0x0A] @ caption)")
      from Cons.IH [OF Cons.prems, of w2 ts1 "n = length urls"] u ne Inr l wt
      show ?thesis by simp
    qed
  qed
qed

section \<open>The download scheduler: a second run\<close>

lemma os_MkdirAll_existing: "node_at w p = Some DirNode \<Longrightarrow> os_MkdirAll w p = Inr w"
  by (simp add: os_MkdirAll_def)

lemma node_at_calls: "node_at (w\<lparr>calls := k\<rparr>) p = node_at w p"
  by (simp add: node_at_def)

lemma present_calls: "present (w\<lparr>calls := k\<rparr>) dir = present w dir"
  by (rule ext) (simp add: present_def os_Stat_def node_at_calls)

lemma itemSynced_calls: "itemSynced c pf (w\<lparr>calls := k\<rparr>) = itemSynced c pf w"
  by (rule ext)
     (simp add: itemSynced_def itemFetched_def present_calls os_Stat_def node_at_calls)

lemma synced_calls: "synced c pf (w\<lparr>calls := k\<rparr>) items = synced c pf w items"
  by (simp add: synced_def itemSynced_calls)

lemma writeText_existing:
  "os_Stat w (Join [dir, file]) \<Longrightarrow>
   writeText pf w dir file s = (w\<lparr>calls := Suc (calls w)\<rparr>, None)"
  by (simp add: writeText_def tmpFilename_def os_Stat_def node_at_calls)

text \<open>
  An item whose files are all on disk costs one temporary name (drawn before the info file
  is looked up) and nothing else.
\<close>

lemma downloadItems_synced_item:
  assumes "itemSynced c pf w item" and "attachments c item \<noteq> []"
  shows "downloadItems c pf (item # items) w ts lf =
         downloadItems c pf items (w\<lparr>calls := Suc (calls w)\<rparr>) ts True"
proof -
  obtain urls caption where u: "itemURLs c item = Some (urls, caption)"
    and a: "attachments c item = urls"
    using assms(2) by (auto simp add: attachments_def split: option.splits)
  from assms a have d: "node_at w (itemDir c pf item) = Some DirNode"
    and f: "list_all (present w (itemDir c pf item)) urls"
    and i: "os_Stat w (Join [itemDir c pf item, ''info''])"
    by (simp_all add: itemSynced_def itemFetched_def)
  show ?thesis
    using u a assms(2)
    by (simp add: os_MkdirAll_existing [OF d] urlLoop_all_present [OF f] writeText_existing [OF i])
qed

lemma downloadItems_synced:
  "synced c pf w items \<Longrightarrow>
   downloadItems c pf items w ts lf =
     Returns \<lparr>after = w\<lparr>calls := calls w + length (contributing c items)\<rparr>, dispatched = ts,
              lastFetched = (if contributing c items = [] then lf else True), failure = None\<rparr>"
proof (induction items arbitrary: w lf)
  case Nil
  show ?case by (simp add: contributing_def)
next
  case (Cons x xs)
  from Cons.prems have x: "itemSynced c pf w x" and xs: "synced c pf w xs"
    by (simp_all add: synced_def)
  show ?case
  proof (cases "attachments c x = []")
    case True
    then show ?thesis
      using Cons.IH [OF xs, of lf]
      by (simp add: downloadItems_skip contributing_def del: downloadItems.simps)
  next
    case False
    have xs': "synced c pf (w\<lparr>calls := Suc (calls w)\<rparr>) xs" using xs by (simp add: synced_calls)
    show ?thesis
      using False Cons.IH [OF xs', of True]
      by (simp add: downloadItems_synced_item [OF x False] contributing_def
            del: downloadItems.simps)
  qed
qed

text \<open>The downloads dispatched are only ever added to.\<close>

lemma urlLoop_dispatched:
  "urlLoop c w dir urls n ts = Returns (n', ts') \<Longrightarrow>
   \<exists>xs. ts' = ts @ xs \<and> (xs = [] \<longrightarrow> n' = n + length urls)"
proof (induction urls arbitrary: n ts)
  case Nil
  then show ?case by simp
next
  case (Cons u urls)
  show ?case
  proof (cases "present w dir u")
    case True
    with Cons.prems have "urlLoop c w dir urls (Suc n) ts = Returns (n', ts')"
      by (simp add: present_def Let_def)
    from Cons.IH [OF this] show ?thesis by auto
  next
    case False
    with Cons.prems
    have "urlLoop c w dir urls n (ts @ [\<lparr>dl_dir = dir, dl_name = Base u, dl_oURL = u\<rparr>]) =
            Returns (n', ts')"
      by (simp add: present_def Let_def split: if_splits)
    from Cons.IH [OF this] show ?thesis by auto
  qed
qed

lemma downloadItems_dispatched:
  "downloadItems c pf items w ts lf = Returns r \<Longrightarrow> \<exists>ys. dispatched r = ts @ ys"
proof (induction items arbitrary: w ts lf)
  case Nil
  then show ?case by auto
next
  case (Cons x xs)
  show ?case
  proof (cases "attachments c x = []")
    case True
    with Cons.prems have "downloadItems c pf xs w ts lf = Returns r"
      by (simp add: downloadItems_skip del: downloadItems.simps)
    from Cons.IH [OF this] show ?thesis .
  next
    case False
    then obtain urls caption where u: "itemURLs c x = Some (urls, caption)" and ne: "urls \<noteq> []"
      by (auto simp add: attachments_def split: option.splits)
    show ?thesis
    proof (cases "os_MkdirAll w (itemDir c pf x)")
      case (Inl e)
      with Cons.prems u ne show ?thesis by auto
    next
      case (Inr w1)
      from Cons.prems u ne Inr obtain n ts1 where
        l: "urlLoop c w1 (itemDir c pf x) urls 0 ts = Returns (n, ts1)"
        by (cases "urlLoop c w1 (itemDir c pf x) urls 0 ts") auto
      obtain w2 e2 where wt:
        "writeText pf w1 (itemDir c pf x) ''info''
           (ItemBase_URL pf x @ [CHR 0x0A, CHR 0x0A] @ caption) = (w2, e2)"
        by (cases "writeText pf w1 (itemDir c pf x) ''info''
                     (ItemBase_URL pf x @ [CHR 0x0A, CHR 0x0A] @ caption)")
      from Cons.prems u ne Inr l wt
      have "downloadItems c pf xs w2 ts1 (n = length urls) = Returns r" by simp
      from Cons.IH [OF this] urlLoop_dispatched [OF l] show ?thesis by auto
    qed
  qed
qed

text \<open>
  A run that dispatches nothing and returns no error found every attachment it looked up:
  its value is true as soon as one item has attachment URLs.
\<close>

lemma downloadItems_nothing_dispatched:
  "downloadItems c pf items w ts lf = Returns r \<Longrightarrow> dispatched r = ts \<Longrightarrow> failure r = None \<Longrightarrow>
   lastFetched r = (if contributing c items = [] then lf else True)"
proof (induction items arbitrary: w ts lf)
  case Nil
  then show ?case by (auto simp add: contributing_def)
next
  case (Cons x xs)
  show ?case
  proof (cases "attachments c x = []")
    case True
    with Cons.prems have "downloadItems c pf xs w ts lf = Returns r"
      by (simp add: downloadItems_skip del: downloadItems.simps)
    from Cons.IH [OF this Cons.prems(2,3)] True show ?thesis by (simp add: contributing_def)
  next
    case False
    then obtain urls caption where u: "itemURLs c x = Some (urls, caption)" and ne: "urls \<noteq> []"
      by (auto simp add: attachments_def split: option.splits)
    show ?thesis
    proof (cases "os_MkdirAll w (itemDir c pf x)")
      case (Inl e)
      with Cons.prems u ne show ?thesis by auto
    next
      case (Inr w1)
      from Cons.prems(1) u ne Inr obtain n ts1 where
        l: "urlLoop c w1 (itemDir c pf x) urls 0 ts = Returns (n, ts1)"
        by (cases "urlLoop c w1 (itemDir c pf x) urls 0 ts") auto
      obtain w2 e2 where wt:
        "writeText pf w1 (itemDir c pf x) ''info''
           (ItemBase_URL pf x @ [CHR 0x0A, CHR 0x0A] @ caption) = (w2, e2)"
        by (cases "writeText pf w1 (itemDir c pf x) ''info''
                     (ItemBase_URL pf x @ [CHR 0x0A, CHR 0x0A] @ caption)")
      from Cons.prems(1) u ne Inr l wt
      have rest: "downloadItems c pf xs w2 ts1 (n = length urls) = Returns r" by simp
      from urlLoop_dispatched [OF l] obtain xs1 where
        x1: "ts1 = ts @ xs1" and c1: "xs1 = [] \<longrightarrow> n = length urls" by auto
      from downloadItems_dispatched [OF rest] obtain ys where "dispatched r = ts1 @ ys" by auto
      with x1 Cons.prems(2) have e: "xs1 = []" and d: "dispatched r = ts1" by auto
      from Cons.IH [OF rest d Cons.prems(3)] c1 e False show ?thesis
        by (simp add: contributing_def)
    qed
  qed
qed

text \<open>A run that ends in an error leaves a state that is not synced for its items.\<close>

lemma downloadItems_failure_not_synced:
  "downloadItems c pf items w ts lf = Returns r \<Longrightarrow> failure r \<noteq> None \<Longrightarrow>
   \<not> synced c pf (after r) items"
proof (induction items arbitrary: w ts lf)
  case Nil
  then show ?case by auto
next
  case (Cons x xs)
  show ?case
  proof (cases "attachments c x = []")
    case True
    with Cons.prems have "downloadItems c pf xs w ts lf = Returns r"
      by (simp add: downloadItems_skip del: downloadItems.simps)
    from Cons.IH [OF this Cons.prems(2)] show ?thesis by (simp add: synced_def)
  next
    case False
    then obtain urls caption where u: "itemURLs c x = Some (urls, caption)" and ne: "urls \<noteq> []"
      by (auto simp add: attachments_def split: option.splits)
    show ?thesis
    proof (cases "os_MkdirAll w (itemDir c pf x)")
      case (Inl e)
      with Cons.prems u ne have a: "after r = w" by auto
      have "node_at w (itemDir c pf x) \<noteq> Some DirNode"
        using os_MkdirAll_existing [of w "itemDir c pf x"] Inl by auto
      with a False show ?thesis by (simp add: synced_def itemSynced_def)
    next
      case (Inr w1)
      from Cons.prems(1) u ne Inr obtain n ts1 where
        l: "urlLoop c w1 (itemDir c pf x) urls 0 ts = Returns (n, ts1)"
        by (cases "urlLoop c w1 (itemDir c pf x) urls 0 ts") auto
      obtain w2 e2 where wt:
        "writeText pf w1 (itemDir c pf x) ''info''
           (ItemBase_URL pf x @ [CHR 0x0A, CHR 0x0A] @ caption) = (w2, e2)"
        by (cases "writeText pf w1 (itemDir c pf x) ''info''
                     (ItemBase_URL pf x @ [CHR 0x0A, CHR 0x0A] @ caption)")
      from Cons.prems(1) u ne Inr l wt
      have rest: "downloadItems c pf xs w2 ts1 (n = length urls) = Returns r" by simp
      from Cons.IH [OF rest Cons.prems(2)] show ?thesis by (simp add: synced_def)
    qed
  qed
qed

text \<open>
  C5, amended. Running \<^verbatim>\<open>downloadPage\<close> a second time on the same page, after the
  downloads of the first run have completed, with the filesystem holding every file the
  first run wrote (the directory and the info file of every item that has attachment URLs)
  and every attachment file of those items, returns without error, dispatches no download
  and leaves the filesystem as it was (the info file is not rewritten); and it returns the
  same \<^verbatim>\<open>lastFetched\<close> as the first run whenever the first run dispatched no download.
\<close>

theorem downloadPage_second_run:
  assumes run1: "downloadPage c pf w (Some p) = Returns r1"
    and dls: "runDownloads c pf net (dispatched r1) (after r1) = Returns w2"
    and held: "synced c pf w2 (Items (PBody p))"
  shows "\<exists>r2. downloadPage c pf w2 (Some p) = Returns r2 \<and> dispatched r2 = [] \<and>
            nodes (after r2) = nodes w2 \<and> failure r2 = None \<and>
            (dispatched r1 = [] \<longrightarrow> lastFetched r2 = lastFetched r1)"
proof -
  let ?items = "Items (PBody p)"
  let ?r2 = "\<lparr>after = w2\<lparr>calls := calls w2 + length (contributing c ?items)\<rparr>, dispatched = [],
             lastFetched = (contributing c ?items \<noteq> []), failure = None\<rparr>"
  have r2: "downloadPage c pf w2 (Some p) = Returns ?r2"
    by (simp add: downloadPage_def downloadItems_synced [OF held])
  have same: "lastFetched r1 = (contributing c ?items \<noteq> [])" if none: "dispatched r1 = []"
  proof -
    from run1 have items: "downloadItems c pf ?items w [] False = Returns r1"
      by (simp add: downloadPage_def)
    from dls none have "w2 = after r1" by simp
    with held downloadItems_failure_not_synced [OF items] have "failure r1 = None"
      by (cases "failure r1") auto
    from downloadItems_nothing_dispatched [OF items none this] show ?thesis by simp
  qed
  from r2 same show ?thesis by simp
qed

text \<open>
  C5, as stated, fails, in both of its conclusions. Start from an empty filesystem and a
  transport that times out, so that the network does not change and every download fails
  without writing. For a page with one image, the first run makes the directory, writes the
  info file and dispatches the download; the filesystem then holds every file the first run
  wrote, and the second run dispatches the same download again. For a page whose image has
  an attachment named \<open>info\<close>, the first run returns false and writes the info file; the
  filesystem then holds every file the first run wrote and every attachment file, the
  second run dispatches nothing, and it returns true, not the value of the first run.
\<close>

theorem second_run_counterexample:
  "map_outcome dispatched
     (secondRun (newApp ex_config) ex_platform netDown emptyWorld (Some (mkPage [imgA]))) =
   Returns [\<lparr>dl_dir = ''d/c/D: a'', dl_name = ''x'', dl_oURL = ''h/x''\<rparr>] \<and>
   map_outcome lastFetched
     (downloadPage (newApp ex_config) ex_platform emptyWorld (Some (mkPage [imgInfo]))) =
   Returns False \<and>
   syncedBetweenRuns (newApp ex_config) ex_platform netDown emptyWorld (mkPage [imgInfo]) \<and>
   map_outcome dispatched
     (secondRun (newApp ex_config) ex_platform netDown emptyWorld (Some (mkPage [imgInfo]))) =
   Returns [] \<and>
   map_outcome lastFetched
     (secondRun (newApp ex_config) ex_platform netDown emptyWorld (Some (mkPage [imgInfo]))) =
   Returns True"
  by code_simp

theorem downloadPage_second_run_witness:
  "\<exists>r1 w2 r2.
     downloadPage (newApp ex_config) ex_platform worldNoInfo (Some (mkPage [imgA, art])) = Returns r1 \<and>
     runDownloads (newApp ex_config) ex_platform netDown (dispatched r1) (after r1) = Returns w2 \<and>
     synced (newApp ex_config) ex_platform w2 (Items (PBody (mkPage [imgA, art]))) \<and>
     \<not> synced (newApp ex_config) ex_platform worldNoInfo (Items (PBody (mkPage [imgA, art]))) \<and>
     dispatched r1 = [] \<and> lastFetched r1 \<and>
     downloadPage (newApp ex_config) ex_platform w2 (Some (mkPage [imgA, art])) = Returns r2 \<and>
     dispatched r2 = [] \<and> nodes (after r2) = nodes w2 \<and> failure r2 = None \<and>
     lastFetched r2 = lastFetched r1"
proof -
  let ?c = "newApp ex_config"
  let ?p = "mkPage [imgA, art]"
  have "map_outcome (\<lambda>r. (dispatched r, lastFetched r, synced ?c ex_platform (after r) (Items (PBody ?p))))
          (downloadPage ?c ex_platform worldNoInfo (Some ?p)) = Returns ([], True, True)"
    by code_simp
  from Returns_of_map_outcome [OF this] obtain r1 where
    run1: "downloadPage ?c ex_platform worldNoInfo (Some ?p) = Returns r1"
    and d1: "dispatched r1 = []" and l1: "lastFetched r1"
    and s1: "synced ?c ex_platform (after r1) (Items (PBody ?p))"
    by auto
  have dls: "runDownloads ?c ex_platform netDown (dispatched r1) (after r1) = Returns (after r1)"
    using d1 by simp
  have ns: "\<not> synced ?c ex_platform worldNoInfo (Items (PBody ?p))" by code_simp
  from downloadPage_second_run [OF run1 dls s1] d1 obtain r2 where
    "downloadPage ?c ex_platform (after r1) (Some ?p) = Returns r2" "dispatched r2 = []"
    "nodes (after r2) = nodes (after r1)" "failure r2 = None" "lastFetched r2 = lastFetched r1"
    by auto
  with run1 dls s1 ns d1 l1 show ?thesis by blast
qed

section \<open>Items without a body\<close>

text \<open>
  C9. When the bytes decode as an item base whose type tag is none of \<open>article\<close>, \<open>image\<close>,
  \<open>file\<close>, decoding into a fresh item returns no error and leaves the body nil; and
  \<^verbatim>\<open>downloadPage\<close> skips such an item: no URL is collected for it, a page with the item
  behaves as the page without it, and a page of that item alone leaves the world as it was
  (nothing is dispatched, made or written).
\<close>

theorem unknown_type_skipped:
  assumes "unmarshalBase (ItemBase_of i0) = (None, b)"
    and "Type b \<noteq> ItemTypeArticle \<and> Type b \<noteq> ItemTypeImage \<and> Type b \<noteq> ItemTypeFile"
    and "Item.Body i0 = None"
    and "Item_UnmarshalJSON unmarshalBase unmarshalBody i0 = (e, i)"
  shows "e = None \<and> Item.Body i = None \<and> itemURLs c i = None \<and>
         downloadPage c pf w (Some \<lparr>PBody = \<lparr>Items = pre @ [i] @ post, NextURL = cursor\<rparr>\<rparr>) =
           downloadPage c pf w (Some \<lparr>PBody = \<lparr>Items = pre @ post, NextURL = cursor\<rparr>\<rparr>) \<and>
         downloadPage c pf w (Some \<lparr>PBody = \<lparr>Items = [i], NextURL = cursor\<rparr>\<rparr>) =
           Returns \<lparr>after = w, dispatched = [], lastFetched = False, failure = None\<rparr>"
proof -
  from assms have e: "e = None" and i: "Item.Body i = None"
    by (auto simp add: Item_UnmarshalJSON_def Item_of_def Let_def)
  from i have u: "itemURLs c i = None" by (simp add: itemURLs_def)
  then have a: "attachments c i = []" by (simp add: attachments_def)
  have "downloadItems c pf (pre @ [i] @ post) w [] False =
        downloadItems c pf (pre @ post) w [] False"
    by (simp add: downloadItems_append [of c pf pre] downloadItems_skip [OF a]
          del: downloadItems.simps split: outcome.splits option.splits)
  moreover have "downloadItems c pf [i] w [] False =
           Returns \<lparr>after = w, dispatched = [], lastFetched = False, failure = None\<rparr>"
    using u by simp
  ultimately show ?thesis using e i u by (simp add: downloadPage_def)
qed

theorem unknown_type_skipped_witness:
  "unmarshalVideo (ItemBase_of zeroItem) = (None, videoBase) \<and>
   Type videoBase \<noteq> ItemTypeArticle \<and> Type videoBase \<noteq> ItemTypeImage \<and>
   Type videoBase \<noteq> ItemTypeFile \<and> Item.Body zeroItem = None \<and>
   Item_UnmarshalJSON unmarshalVideo unmarshalAsGiven zeroItem = (None, videoItem) \<and>
   Item.Body videoItem = None \<and>
   itemURLs (newApp ex_config) videoItem = None \<and>
   downloadPage (newApp ex_config) ex_platform worldA
       (Some \<lparr>PBody = \<lparr>Items = [imgA] @ [videoItem] @ [art], NextURL = ''n''\<rparr>\<rparr>) =
     downloadPage (newApp ex_config) ex_platform worldA
       (Some \<lparr>PBody = \<lparr>Items = [imgA] @ [art], NextURL = ''n''\<rparr>\<rparr>) \<and>
   downloadPage (newApp ex_config) ex_platform worldA
       (Some \<lparr>PBody = \<lparr>Items = [videoItem], NextURL = ''n''\<rparr>\<rparr>) =
     Returns \<lparr>after = worldA, dispatched = [], lastFetched = False, failure = None\<rparr>"
proof -
  have h1: "unmarshalVideo (ItemBase_of zeroItem) = (None, videoBase)"
    by (simp add: unmarshalVideo_def)
  have h2: "Type videoBase \<noteq> ItemTypeArticle \<and> Type videoBase \<noteq> ItemTypeImage \<and>
            Type videoBase \<noteq> ItemTypeFile"
    by (simp add: videoBase_def ItemTypeArticle_def ItemTypeImage_def ItemTypeFile_def)
  have h3: "Item.Body zeroItem = None" by (simp add: zeroItem_def)
  have h4: "Item_UnmarshalJSON unmarshalVideo unmarshalAsGiven zeroItem = (None, videoItem)"
    by (simp add: Item_UnmarshalJSON_def Item_of_def unmarshalVideo_def videoBase_def
          videoItem_def zeroItem_def mkItem_def ItemTypeArticle_def ItemTypeImage_def
          ItemTypeFile_def)
  from unknown_type_skipped
         [OF h1 h2 h3 h4, of "newApp ex_config" ex_platform worldA "[imgA]" "[art]" "''n''"]
       h1 h2 h3 h4
  show ?thesis by simp
qed

section \<open>The paginator\<close>

text \<open>
  C10. For every configuration with \<^verbatim>\<open>MaxPageBehind\<close> at most 0 and either value of
  \<^verbatim>\<open>fetchAll\<close>, \<^verbatim>\<open>poll\<close> fetches no listing, dispatches no download, leaves the world as it
  was and returns nil.
\<close>

theorem poll_no_pages:
  assumes "MaxPageBehind c \<le> 0"
  shows "poll c pf net decode fetchAll w =
           Returns \<lparr>pworld = w, pdispatched = [], fetches = [], presult = None\<rparr>"
  using assms by (simp add: poll_def poll_loop.simps)

theorem poll_no_pages_witness:
  "MaxPageBehind (newApp ex_config_no_pages) \<le> 0 \<and>
   poll (newApp ex_config_no_pages) ex_platform netPage decodePage True emptyWorld =
     Returns \<lparr>pworld = emptyWorld, pdispatched = [], fetches = [], presult = None\<rparr> \<and>
   poll (newApp ex_config_no_pages) ex_platform netPage decodePage False emptyWorld =
     Returns \<lparr>pworld = emptyWorld, pdispatched = [], fetches = [], presult = None\<rparr>"
proof -
  have h: "MaxPageBehind (newApp ex_config_no_pages) \<le> 0"
    by (simp add: newApp_def ex_config_no_pages_def)
  from poll_no_pages [OF h, of ex_platform netPage decodePage True emptyWorld]
       poll_no_pages [OF h, of ex_platform netPage decodePage False emptyWorld] h
  show ?thesis by simp
qed

text \<open>
  With a retry count of zero or more the listing call returns an error (see
  \<open>get_always_fails\<close>), so a poll that fetches at all ends at its first fetch.
\<close>

lemma Get_fails: "0 \<le> Retries sc \<Longrightarrow> \<exists>e. Get sc net decode url = Returns (Inl e)"
  using get_always_fails [of sc net url] by (auto simp add: Get_def Let_def)

lemma poll_fails_at_first_fetch:
  assumes "0 < MaxPageBehind c" and "0 \<le> Retries (session c)"
  shows "\<exists>e. poll c pf net decode fetchAll w =
           Returns \<lparr>pworld = w, pdispatched = [], fetches = [supportingURL],
                    presult = Some (PageErr ''failed to get supporting posts page'' 0 e)\<rparr>"
proof -
  from Get_fails [OF assms(2), of net decode supportingURL] obtain e where
    "Get (session c) net decode supportingURL = Returns (Inl e)" by auto
  with assms(1) show ?thesis
    by (simp add: poll_def poll_loop.simps [of c pf net decode fetchAll 0]
          SupportingPosts_def PostsFromURL_def)
qed




section \<open>The semaphore and the downloads in flight\<close>

lemma sched_step_inv:
  "sched_step c pf net dir ev s = Some s1 \<Longrightarrow> sched_inv s \<Longrightarrow>
   sched_inv s1 \<and> sem_size (sem s1) = sem_size (sem s)"
  by (cases ev)
     (auto simp add: sched_step_def sched_inv_def Acquire_def Release_def Let_def
           split: list.splits if_splits option.splits outcome.splits)

lemma sched_run_inv:
  "sched_run c pf net dir evs s = Some s1 \<Longrightarrow> sched_inv s \<Longrightarrow>
   sched_inv s1 \<and> sem_size (sem s1) = sem_size (sem s)"
proof (induction evs arbitrary: s)
  case Nil
  then show ?case by simp
next
  case (Cons ev evs)
  then obtain s2 where st: "sched_step c pf net dir ev s = Some s2"
    and r: "sched_run c pf net dir evs s2 = Some s1"
    by (auto split: option.splits)
  from sched_step_inv [OF st Cons.prems(2)] Cons.IH [OF r] show ?case by simp
qed

text \<open>
  What the semaphore does bound: in every state the loop can reach, whatever the order of
  the driver's steps and the completions, the downloads in flight are at most the retry
  count the semaphore was sized from.
\<close>

lemma inFlight_bounded_by_MaxRetries:
  assumes "sched_run (newApp cfg) pf net dir evs (sched_init (newApp cfg) w urls) = Some s"
  shows "int (inFlight s) \<le> max 0 (MaxRetries cfg)"
proof -
  have "sched_inv (sched_init (newApp cfg) w urls)"
    by (simp add: sched_inv_def sched_init_def newApp_def NewWeighted_def)
  from sched_run_inv [OF assms this] show ?thesis
    by (auto simp add: sched_inv_def inFlight_def sched_init_def newApp_def NewWeighted_def)
qed

text \<open>
  While no download completes and slots are free, the steps of the driver in the
  interleaving are the loop over the URLs: the same count, the same downloads dispatched.
\<close>

lemma sched_driver_alone:
  "urlLoop c w dir urls n ts = Returns (n', ts') \<Longrightarrow>
   int (length (filter (\<lambda>u. \<not> present w dir u) urls)) \<le> sem_size sm - sem_cur sm \<Longrightarrow>
   sched_run c pf net dir (replicate (length urls) Driver)
       \<lparr>sem = sm, running = ts, todo = urls, fetchedItems = n, fsw = w\<rparr> =
     Some \<lparr>sem = sm\<lparr>sem_cur := sem_cur sm + int (length (filter (\<lambda>u. \<not> present w dir u) urls))\<rparr>,
           running = ts', todo = [], fetchedItems = n', fsw = w\<rparr>"
proof (induction urls arbitrary: n ts sm)
  case Nil
  then show ?case by simp
next
  case (Cons u urls)
  show ?case
  proof (cases "present w dir u")
    case True
    with Cons.prems have l: "urlLoop c w dir urls (Suc n) ts = Returns (n', ts')"
      and b: "int (length (filter (\<lambda>u. \<not> present w dir u) urls)) \<le> sem_size sm - sem_cur sm"
      by (simp_all add: present_def Let_def)
    from Cons.IH [OF l b, of ] True show ?thesis
      by (simp add: sched_step_def present_def Let_def)
  next
    case False
    with Cons.prems have l: "urlLoop c w dir urls n (ts @ [\<lparr>dl_dir = dir, dl_name = Base u, dl_oURL = u\<rparr>]) = Returns (n', ts')"
      by (simp add: present_def Let_def split: if_splits)
    from False Cons.prems(2)
    have b: "int (length (filter (\<lambda>u. \<not> present w dir u) urls)) \<le>
               sem_size (sm\<lparr>sem_cur := sem_cur sm + 1\<rparr>) - sem_cur (sm\<lparr>sem_cur := sem_cur sm + 1\<rparr>)"
      and a: "1 \<le> sem_size sm - sem_cur sm"
      by simp_all
    from Cons.IH [OF l b] False a show ?thesis
      by (simp add: sched_step_def present_def Let_def Acquire_def add.assoc)
  qed
qed

text \<open>
  With a retry count of 0 the semaphore has no slot: the first missing attachment makes the
  driver wait for ever.
\<close>

lemma downloadPage_blocks_without_retries:
  "map_outcome lastFetched
     (downloadPage (newApp ex_config_no_retries) ex_platform emptyWorld (Some (mkPage [imgA]))) = Blocks"
  by code_simp

text \<open>
  C1. The downloads in flight should never exceed \<^verbatim>\<open>MaxParallel\<close>. The source sizes the
  semaphore from \<^verbatim>\<open>MaxRetries\<close>: with \<^verbatim>\<open>MaxParallel\<close> 1 and \<^verbatim>\<open>MaxRetries\<close> 4, two steps of
  the driver over an item with two missing attachments leave two downloads in flight.
\<close>

theorem two_in_flight_with_MaxParallel_one:
  "MaxParallel (newApp ex_config) = 1 \<and> sem_size (sema (newApp ex_config)) = 4 \<and>
   map_option inFlight
     (sched_run (newApp ex_config) ex_platform netDown
        (itemDir (newApp ex_config) ex_platform imgXY) [Driver, Driver]
        (sched_init (newApp ex_config) emptyWorld (attachments (newApp ex_config) imgXY))) = Some 2"
  by code_simp

end
